theory Spec2Isabelle
  imports Complex_Main "HOL-Library.Word"
begin

unbundle bit_operations_syntax

section \<open>SimpleVox: voice activity detection, MFCC feature files and DTW distance\<close>

text \<open>
  A shallow embedding of the SimpleVox library: \<^verbatim>\<open>simplevox_vad.cpp\<close>, the implementation
  of \<^verbatim>\<open>simplevox_mfcc.h\<close> (\<^verbatim>\<open>MfccEngine\<close>, \<^verbatim>\<open>MfccFeature\<close>), \<^verbatim>\<open>detail/simplevox_dtw.h\<close>
  and \<^verbatim>\<open>simplevox_dtw.cpp\<close>.

  Conventions of the embedding:
  \<^item> a C++ \<^verbatim>\<open>int\<close> is an Isabelle \<open>int\<close>; signed overflow is undefined behaviour in
    C++, so the theorems speak about executions in which no \<^verbatim>\<open>int\<close> computation leaves
    the 32-bit range; where a value is stored in a narrower or unsigned cell
    (\<^verbatim>\<open>int16_t\<close>, \<^verbatim>\<open>uint32_t\<close>, a byte of a file) the cell is a word and the conversion
    is written out;
  \<^item> \<^verbatim>\<open>/\<close> on \<^verbatim>\<open>int\<close> truncates towards zero (\<open>c_div\<close>);
  \<^item> what the library calls but does not define (the per-frame classifier of
    \<^verbatim>\<open>esp_vad.h\<close>, the allocator, the FFT driver) is a parameter of the function that
    calls it.
\<close>

definition c_div :: "int \<Rightarrow> int \<Rightarrow> int" where
  "c_div a b = (if (a < 0) = (b < 0) then \<bar>a\<bar> div \<bar>b\<bar> else - (\<bar>a\<bar> div \<bar>b\<bar>))"

subsection \<open>Voice activity detection: \<^verbatim>\<open>simplevox_vad.h\<close>, \<^verbatim>\<open>simplevox_vad.cpp\<close>\<close>

datatype VadState =
  None_State | Warmup | Setup | Silence | PreDetection | Speech | PostDetection | Detected

datatype VadMode =
  Aggression_LV0 | Aggression_LV1 | Aggression_LV2 | Aggression_LV3 | Aggression_LV4

record VadConfig =
  warmup_time_ms :: int
  hangbefore_ms :: int
  decision_time_ms :: int
  hangover_ms :: int
  sample_rate :: int
  vad_mode :: VadMode

text \<open>\<^verbatim>\<open>static const int frame_time_ms = 10;\<close>\<close>

definition frame_time_ms :: int where
  "frame_time_ms = 10"

definition frame_length :: "VadConfig \<Rightarrow> int" where
  "frame_length c = c_div (frame_time_ms * sample_rate c) 1000"

definition warmup_length :: "VadConfig \<Rightarrow> int" where
  "warmup_length c = c_div (warmup_time_ms c * sample_rate c) 1000"

definition before_length :: "VadConfig \<Rightarrow> int" where
  "before_length c = c_div (hangbefore_ms c * sample_rate c) 1000"

definition decision_length :: "VadConfig \<Rightarrow> int" where
  "decision_length c = c_div (decision_time_ms c * sample_rate c) 1000"

definition over_length :: "VadConfig \<Rightarrow> int" where
  "over_length c = c_div (hangover_ms c * sample_rate c) 1000"

definition DivCeil :: "int \<Rightarrow> int \<Rightarrow> int" where
  "DivCeil dividend divisor = c_div (dividend + divisor - 1) divisor"

text \<open>
  The engine. \<open>'h\<close> is the classifier instance behind \<^verbatim>\<open>esp_vad_handle_t\<close>; \<open>None\<close> is
  \<^verbatim>\<open>nullptr\<close>. The trailing underscores of the member names are dropped.
\<close>

record 'h VadEngine =
  vad_inst :: "'h option"
  vad_config :: VadConfig
  vad_state :: VadState
  state_count :: int
  frame_count :: int
  has_satisfied_hangbefore :: bool

definition reset :: "'h VadEngine \<Rightarrow> 'h VadEngine" where
  "reset e = e\<lparr>frame_count := 0, state_count := 0,
               has_satisfied_hangbefore := False, vad_state := Warmup\<rparr>"

text \<open>
  \<^verbatim>\<open>VadEngine::init\<close>. \<open>vad_create\<close> is the constructor of the external classifier; the
  \<^verbatim>\<open>switch\<close> over the five modes passes the mode on, its \<^verbatim>\<open>default\<close> branch is unreachable
  for a value of the enumeration. The result is the returned flag and the engine.
\<close>

definition VadEngine_init :: "(VadMode \<Rightarrow> 'h option) \<Rightarrow> VadConfig \<Rightarrow> 'h VadEngine \<Rightarrow> bool \<times> 'h VadEngine" where
  "VadEngine_init vad_create config e =
    (if vad_inst e \<noteq> None then (False, e)
     else if frame_time_ms \<noteq> 10 then (False, e)
     else if sample_rate config \<noteq> 8000 \<and> sample_rate config \<noteq> 16000 then (False, e)
     else if hangbefore_ms config < 0 \<or> decision_time_ms config < 0 \<or> hangover_ms config < 0
       then (False, e)
     else let e1 = e\<lparr>vad_inst := vad_create (vad_mode config)\<rparr> in
       if vad_inst e1 = None then (False, e1)
       else (True, (reset e1)\<lparr>vad_config := config\<rparr>))"

text \<open>
  \<^verbatim>\<open>VadEngine::process\<close>, in the order of the source: the increment of
  \<^verbatim>\<open>state_count_\<close>, the computation of \<^verbatim>\<open>state_length\<close>, the conditional call of the
  classifier, and the \<^verbatim>\<open>switch\<close>.

  \<open>vad_process inst data rate ms\<close> is the external classifier: it returns whether the
  frame is \<^verbatim>\<open>VAD_SPEECH\<close> and the classifier instance after the call.
  \<open>classify\<close> is the conditional expression that defines \<^verbatim>\<open>IsSpeech\<close>; \<open>transition\<close>
  is the \<^verbatim>\<open>switch\<close> statement, which runs on the engine whose \<^verbatim>\<open>state_count_\<close> is
  already incremented. \<open>process\<close> returns the engine after the call; the value the C++
  function returns is its \<open>vad_state\<close>.
\<close>

type_synonym ('h, 'd) classifier = "'h option \<Rightarrow> 'd \<Rightarrow> int \<Rightarrow> int \<Rightarrow> bool \<times> 'h option"

definition classify :: "('h, 'd) classifier \<Rightarrow> 'd \<Rightarrow> 'h VadEngine \<Rightarrow> bool \<times> 'h option" where
  "classify vad_process data e =
    (if has_satisfied_hangbefore e
     then vad_process (vad_inst e) data (sample_rate (vad_config e)) frame_time_ms
     else (False, vad_inst e))"

definition transition :: "int \<Rightarrow> bool \<Rightarrow> 'h VadEngine \<Rightarrow> 'h VadEngine" where
  "transition state_length IsSpeech e =
    (let config = vad_config e in
     case vad_state e of
       Warmup \<Rightarrow>
         if state_length \<ge> warmup_length config
         then e\<lparr>state_count := 0, vad_state := Setup\<rparr>
         else e
     | Setup \<Rightarrow> e\<lparr>state_count := 0, vad_state := Silence\<rparr>
     | Silence \<Rightarrow>
         if \<not> has_satisfied_hangbefore e then
           (let e1 = e\<lparr>frame_count := frame_count e + 1\<rparr> in
            if state_length \<ge> before_length config
            then e1\<lparr>has_satisfied_hangbefore := True\<rparr>
            else e1)
         else if IsSpeech then
           e\<lparr>state_count := 0, frame_count := frame_count e + 1, vad_state := PreDetection\<rparr>
         else e
     | PreDetection \<Rightarrow>
         if IsSpeech then
           (let pass_count = DivCeil (decision_length config) (frame_length config);
                e1 = e\<lparr>frame_count := frame_count e + 1\<rparr> in
            if state_count e1 \<ge> pass_count
            then e1\<lparr>state_count := 0, vad_state := Speech\<rparr>
            else e1)
         else
           e\<lparr>frame_count := frame_count e - state_count e, state_count := 0,
             vad_state := Silence\<rparr>
     | Speech \<Rightarrow>
         (let e1 = e\<lparr>frame_count := frame_count e + 1\<rparr> in
          if \<not> IsSpeech
          then e1\<lparr>state_count := 0, vad_state := PostDetection\<rparr>
          else e1)
     | PostDetection \<Rightarrow>
         (let e1 = e\<lparr>frame_count := frame_count e + 1\<rparr> in
          if IsSpeech
          then e1\<lparr>state_count := 0, vad_state := Speech\<rparr>
          else
            (let over_count = DivCeil (over_length config) (frame_length config) in
             if state_count e1 \<ge> over_count
             then e1\<lparr>state_count := 0, vad_state := Detected\<rparr>
             else e1))
     | Detected \<Rightarrow> e
     | None_State \<Rightarrow> e\<lparr>state_count := 0, frame_count := 0, vad_state := Warmup\<rparr>)"

definition process :: "('h, 'd) classifier \<Rightarrow> 'd \<Rightarrow> 'h VadEngine \<Rightarrow> 'h VadEngine" where
  "process vad_process data e =
    (let e1 = e\<lparr>state_count := state_count e + 1\<rparr>;
         state_length = frame_length (vad_config e1) * state_count e1;
         (IsSpeech, inst) = classify vad_process data e1
     in transition state_length IsSpeech (e1\<lparr>vad_inst := inst\<rparr>))"

text \<open>A sequence of \<^verbatim>\<open>process\<close> calls, one per frame of the list, oldest first.\<close>

fun process_all :: "('h, 'd) classifier \<Rightarrow> 'd list \<Rightarrow> 'h VadEngine \<Rightarrow> 'h VadEngine" where
  "process_all vad_process [] e = e"
| "process_all vad_process (d # ds) e = process_all vad_process ds (process vad_process d e)"

subsection \<open>Voice activity detection: auxiliary definitions\<close>

text \<open>
  The configurations \<^verbatim>\<open>VadEngine::init\<close> accepts: for these \<open>frame_length\<close> is 80 or
  160, so no division of \<^verbatim>\<open>process\<close> has a zero divisor.
\<close>

definition config_accepted :: "VadConfig \<Rightarrow> bool" where
  "config_accepted c \<longleftrightarrow>
     (sample_rate c = 8000 \<or> sample_rate c = 16000) \<and>
     0 \<le> hangbefore_ms c \<and> 0 \<le> decision_time_ms c \<and> 0 \<le> hangover_ms c"

text \<open>The invariant of the counters along every run that starts with \<^verbatim>\<open>reset\<close>.\<close>

definition vad_inv :: "'h VadEngine \<Rightarrow> bool" where
  "vad_inv e \<longleftrightarrow> 0 \<le> state_count e \<and> 0 \<le> frame_count e \<and>
     (vad_state e = PreDetection \<longrightarrow> state_count e + 1 \<le> frame_count e \<and> has_satisfied_hangbefore e)"

text \<open>
  A concrete engine for the examples: the default configuration with
  \<^verbatim>\<open>hangbefore_ms = 0\<close>, and a classifier that reads its verdict off the frame (a
  \<open>bool\<close>) and counts its invocations in the instance.
\<close>

definition hang0_config :: VadConfig where
  "hang0_config = \<lparr>warmup_time_ms = 0, hangbefore_ms = 0, decision_time_ms = 200,
     hangover_ms = 200, sample_rate = 16000, vad_mode = Aggression_LV0\<rparr>"

definition hang0_engine :: "nat VadEngine" where
  "hang0_engine = \<lparr>vad_inst = Some 0, vad_config = hang0_config, vad_state = Warmup,
     state_count = 0, frame_count = 0, has_satisfied_hangbefore = False\<rparr>"

definition counting_classifier :: "(nat, bool) classifier" where
  "counting_classifier inst data rate ms = (data, map_option Suc inst)"

subsection \<open>MFCC engine configuration: \<^verbatim>\<open>simplevox_mfcc.h\<close>, \<^verbatim>\<open>simplevox_mfcc.cpp\<close>\<close>

text \<open>
  \<^verbatim>\<open>struct MfccConfig\<close>. Its members \<^verbatim>\<open>sample_rate\<close> and \<^verbatim>\<open>frame_time_ms\<close> and its
  method \<^verbatim>\<open>frame_length()\<close> carry the prefix \<open>mfcc_\<close> here, since \<^verbatim>\<open>VadConfig\<close> has
  members of the same names.
\<close>

record MfccConfig =
  fft_num :: int
  mel_channel :: int
  coef_num :: int
  pre_emphasis :: int
  mfcc_sample_rate :: int
  mfcc_frame_time_ms :: int

definition mfcc_frame_length :: "MfccConfig \<Rightarrow> int" where
  "mfcc_frame_length c = c_div (mfcc_frame_time_ms c * mfcc_sample_rate c) 1000"

definition hop_length :: "MfccConfig \<Rightarrow> int" where
  "hop_length c = c_div (mfcc_frame_length c) 2"

text \<open>
  Modelled from the spec: \<^verbatim>\<open>dsp_is_power_of_two\<close> belongs to the esp-dsp library, which
  is not part of the repository. The spec asks for an \<^verbatim>\<open>fft_num\<close> that is a power of two;
  for a 32-bit \<^verbatim>\<open>int\<close> these are \<open>2 ^ k\<close> with \<open>k < 31\<close>.
\<close>

definition dsp_is_power_of_two :: "int \<Rightarrow> bool" where
  "dsp_is_power_of_two x \<longleftrightarrow> x \<in> set (map (\<lambda>k. 2 ^ k) [0..<31])"

definition VerifyMfccConfig :: "MfccConfig \<Rightarrow> bool" where
  "VerifyMfccConfig config =
    (if fft_num config < 0 \<or> \<not> dsp_is_power_of_two (fft_num config) then False
     else if mel_channel config < 0 \<or> coef_num config < 0 \<or> pre_emphasis config < 0
            \<or> mfcc_frame_time_ms config < 0 then False
     else if mfcc_sample_rate config \<noteq> 8000 \<and> mfcc_sample_rate config \<noteq> 16000 then False
     else if mfcc_frame_length config > fft_num config then False
     else True)"

text \<open>
  What \<^verbatim>\<open>MfccEngine::init\<close> asks of its environment: \<open>new_int16 n\<close> and \<open>new_float n\<close>
  tell whether \<^verbatim>\<open>new (std::nothrow) int16_t[n]\<close> and \<^verbatim>\<open>new (std::nothrow) float[n]\<close>
  return a buffer, \<open>dsps_fft4r_initialized\<close> is the flag of the FFT driver, and
  \<open>dsps_fft4r_init_fc32 n\<close> tells whether the driver's initialisation returns
  \<^verbatim>\<open>ESP_OK\<close>.
\<close>

record InitEnv =
  new_int16 :: "int \<Rightarrow> bool"
  new_float :: "int \<Rightarrow> bool"
  dsps_fft4r_initialized :: int
  dsps_fft4r_init_fc32 :: "int \<Rightarrow> bool"

text \<open>
  \<^verbatim>\<open>MfccEngine::init\<close>: the returned flag. \<^verbatim>\<open>SetupHammingWindow\<close>, \<^verbatim>\<open>SetupMelFilter\<close>
  and \<^verbatim>\<open>SetupDctTable\<close> fail exactly when the buffer they are given is null; the
  floating-point tables they fill do not influence the flag.
\<close>

definition MfccEngine_init :: "InitEnv \<Rightarrow> MfccConfig \<Rightarrow> bool" where
  "MfccEngine_init env config =
    (if \<not> VerifyMfccConfig config then False
     else if \<not> new_int16 env (mfcc_frame_length config) then False
     else if \<not> new_int16 env (mel_channel config + 2) then False
     else if \<not> new_int16 env (coef_num config * mel_channel config) then False
     else if \<not> new_float env (mel_channel config) then False
     else if \<not> new_float env (fft_num config) then False
     else if dsps_fft4r_initialized env \<noteq> 0 then False
     else if \<not> dsps_fft4r_init_fc32 env (c_div (fft_num config) 2) then False
     else True)"

subsection \<open>MFCC features and the feature file: \<^verbatim>\<open>MfccFeature\<close>, \<^verbatim>\<open>saveFile\<close>, \<^verbatim>\<open>loadFile\<close>\<close>

text \<open>
  \<^verbatim>\<open>class MfccFeature\<close>: the members \<^verbatim>\<open>frame_num_\<close>, \<^verbatim>\<open>coef_num_\<close> and the buffer
  \<^verbatim>\<open>feature_\<close> of \<^verbatim>\<open>int16_t\<close> (prefix \<open>m_\<close> instead of the trailing underscore), and the
  accessors of \<^verbatim>\<open>ISoundFeature\<close>. \<open>feature f number\<close> is the pointer
  \<^verbatim>\<open>&feature_[number * coef_num_]\<close>: the buffer from that index on.
\<close>

record MfccFeature =
  m_frame_num :: int
  m_coef_num :: int
  m_feature :: "16 word list"

definition size_feature :: "MfccFeature \<Rightarrow> int" where
  "size_feature f = m_frame_num f"

definition dimension :: "MfccFeature \<Rightarrow> int" where
  "dimension f = m_coef_num f"

definition feature :: "MfccFeature \<Rightarrow> int \<Rightarrow> 16 word list" where
  "feature f number = drop (nat (number * m_coef_num f)) (m_feature f)"

text \<open>
  Bytes and the object representation on the little-endian target: \<open>le16\<close> and \<open>le32\<close>
  are the bytes of an \<^verbatim>\<open>int16_t\<close> and an \<^verbatim>\<open>int32_t\<close> in memory order, \<open>of_le\<close> reads a
  value back. \<open>size_t_of\<close> is the conversion of an \<^verbatim>\<open>int\<close> to the 32-bit \<^verbatim>\<open>size_t\<close>.
\<close>

type_synonym byte = "8 word"

definition le16 :: "16 word \<Rightarrow> byte list" where
  "le16 w = [ucast w, ucast (drop_bit 8 w)]"

definition le32 :: "32 word \<Rightarrow> byte list" where
  "le32 w = [ucast w, ucast (drop_bit 8 w), ucast (drop_bit 16 w), ucast (drop_bit 24 w)]"

fun of_le :: "byte list \<Rightarrow> 'a::len word" where
  "of_le [] = 0"
| "of_le (b # bs) = ucast b OR push_bit 8 (of_le bs)"

definition size_t_of :: "int \<Rightarrow> nat" where
  "size_t_of x = nat (x mod 2 ^ 32)"

text \<open>
  The storage. \<open>files\<close> maps a path to the content of the file there, \<open>wb_openable\<close>
  tells whether \<^verbatim>\<open>fopen(path, "wb")\<close> succeeds, \<open>free_space\<close> is the number of bytes the
  medium still accepts. A file open for writing is the bytes written so far and the
  space left; \<^verbatim>\<open>fopen(path, "rb")\<close> fails when there is no file at the path, and a file
  open for reading is the bytes not yet read.

  \<open>fwrite items file\<close> writes the items in order as long as they fit and returns the
  number of items written; \<open>fread item_size count bytes\<close> reads up to \<open>count\<close> items of \<open>item_size\<close>
  bytes and returns them with the rest of the file.
\<close>

record FileSystem =
  files :: "string \<Rightarrow> byte list option"
  wb_openable :: "string \<Rightarrow> bool"
  free_space :: nat

record wfile =
  wbytes :: "byte list"
  wspace :: nat

fun fwrite :: "byte list list \<Rightarrow> wfile \<Rightarrow> nat \<times> wfile" where
  "fwrite [] file = (0, file)"
| "fwrite (item # items) file =
     (if length item \<le> wspace file
      then (let (n, file') =
                  fwrite items (file\<lparr>wbytes := wbytes file @ item,
                                      wspace := wspace file - length item\<rparr>)
            in (Suc n, file'))
      else (0, file))"

fun fread :: "nat \<Rightarrow> nat \<Rightarrow> byte list \<Rightarrow> byte list list \<times> byte list" where
  "fread item_size 0 bytes = ([], bytes)"
| "fread item_size (Suc count) bytes =
     (if item_size \<le> length bytes
      then (let (items, rest) = fread item_size count (drop item_size bytes)
            in (take item_size bytes # items, rest))
      else ([], bytes))"

definition fclose_w :: "FileSystem \<Rightarrow> string \<Rightarrow> wfile \<Rightarrow> FileSystem" where
  "fclose_w fs path file = fs\<lparr>files := (files fs)(path := Some (wbytes file)),
                              free_space := wspace file\<rparr>"

text \<open>\<^verbatim>\<open>enum class MfccTag: uint8_t { VERSION1 = 1 }\<close>\<close>

definition VERSION1 :: byte where
  "VERSION1 = 1"

text \<open>
  \<^verbatim>\<open>MfccEngine::saveFile\<close>: the returned flag and the storage afterwards. The file is
  created empty by \<^verbatim>\<open>fopen\<close> and closed on every path.
\<close>

definition saveFile :: "FileSystem \<Rightarrow> string \<Rightarrow> MfccFeature \<Rightarrow> bool \<times> FileSystem" where
  "saveFile fs path mfcc =
    (if \<not> wb_openable fs path then (False, fs)
     else
       let file = \<lparr>wbytes = [], wspace = free_space fs\<rparr>;
           tag = VERSION1;
           (n, file) = fwrite [[tag]] file
       in if n \<noteq> 1 then (False, fclose_w fs path file)
       else
         let size = size_feature mfcc;
             (n, file) = fwrite [le32 (word_of_int size)] file
         in if n \<noteq> 1 then (False, fclose_w fs path file)
         else
           let coef_num = dimension mfcc;
               (n, file) = fwrite [le32 (word_of_int coef_num)] file
           in if n \<noteq> 1 then (False, fclose_w fs path file)
           else
             let data_num = size * coef_num;
                 (n, file) = fwrite (map le16 (take (size_t_of data_num) (m_feature mfcc))) file
             in if n \<noteq> size_t_of data_num then (False, fclose_w fs path file)
                else (True, fclose_w fs path file))"

text \<open>
  \<^verbatim>\<open>MfccEngine::loadFile\<close>: \<open>None\<close> is \<^verbatim>\<open>nullptr\<close>. \<open>heap_caps_malloc n\<close> tells whether
  the allocation of \<open>n\<close> bytes in the constructor of \<^verbatim>\<open>MfccFeature\<close> succeeds; the
  byte count \<^verbatim>\<open>sizeof(*feature_) * frame_num_ * coef_num_\<close> is computed in \<^verbatim>\<open>size_t\<close>.
  The tag is read into a variable that is not used afterwards.
\<close>

definition loadFile :: "(nat \<Rightarrow> bool) \<Rightarrow> FileSystem \<Rightarrow> string \<Rightarrow> MfccFeature option" where
  "loadFile heap_caps_malloc fs path =
    (case files fs path of
       None \<Rightarrow> None
     | Some file \<Rightarrow>
        (case fread 1 1 file of
           ([tag], file) \<Rightarrow>
            (case fread 4 1 file of
               ([size_bytes], file) \<Rightarrow>
                (case fread 4 1 file of
                   ([coef_bytes], file) \<Rightarrow>
                     let size = sint (of_le size_bytes :: 32 word);
                         coef_num = sint (of_le coef_bytes :: 32 word)
                     in if \<not> heap_caps_malloc ((2 * size_t_of size * size_t_of coef_num) mod 2 ^ 32)
                        then None
                        else
                          let data_num = size * coef_num;
                              (items, file) = fread 2 (size_t_of data_num) file
                          in if length items \<noteq> size_t_of data_num then None
                             else Some \<lparr>m_frame_num = size, m_coef_num = coef_num,
                                        m_feature = map of_le items\<rparr>
                 | _ \<Rightarrow> None)
             | _ \<Rightarrow> None)
         | _ \<Rightarrow> None))"

subsection \<open>MFCC engine and feature file: auxiliary definitions\<close>

text \<open>
  The resources \<^verbatim>\<open>MfccEngine::init\<close> needs for a configuration: the five buffers can be
  allocated, the FFT driver is not yet initialised and its initialisation succeeds.
\<close>

definition resources_ok :: "InitEnv \<Rightarrow> MfccConfig \<Rightarrow> bool" where
  "resources_ok env config \<longleftrightarrow>
     new_int16 env (mfcc_frame_length config) \<and> new_int16 env (mel_channel config + 2) \<and>
     new_int16 env (coef_num config * mel_channel config) \<and>
     new_float env (mel_channel config) \<and> new_float env (fft_num config) \<and>
     dsps_fft4r_initialized env = 0 \<and> dsps_fft4r_init_fc32 env (c_div (fft_num config) 2)"

text \<open>The default configuration of the header, and an environment in which nothing fails.\<close>

definition default_MfccConfig :: MfccConfig where
  "default_MfccConfig = \<lparr>fft_num = 512, mel_channel = 24, coef_num = 12, pre_emphasis = 97,
     mfcc_sample_rate = 16000, mfcc_frame_time_ms = 32\<rparr>"

definition generous_env :: InitEnv where
  "generous_env = \<lparr>new_int16 = (\<lambda>n. True), new_float = (\<lambda>n. True),
     dsps_fft4r_initialized = 0, dsps_fft4r_init_fc32 = (\<lambda>n. True)\<rparr>"

text \<open>
  A feature as the library builds it: positive sizes whose product is an \<^verbatim>\<open>int\<close>, and a
  buffer of exactly \<^verbatim>\<open>frame_num_ * coef_num_\<close> values.
\<close>

definition wf_feature :: "MfccFeature \<Rightarrow> bool" where
  "wf_feature f \<longleftrightarrow> 0 < m_frame_num f \<and> 0 < m_coef_num f \<and>
     m_frame_num f * m_coef_num f < 2 ^ 31 \<and>
     length (m_feature f) = nat (m_frame_num f * m_coef_num f)"

text \<open>An empty storage with room for a kilobyte, and the feature of scenario E3.\<close>

definition empty_disk :: FileSystem where
  "empty_disk = \<lparr>files = (\<lambda>p. None), wb_openable = (\<lambda>p. True), free_space = 1024\<rparr>"

definition feature_E3 :: MfccFeature where
  "feature_E3 = \<lparr>m_frame_num = 3, m_coef_num = 4,
     m_feature = [0, 1, 2, 3, 4, 5, 6, 7, 8, 9, 10, 11]\<rparr>"

text \<open>
  A file with the unknown tag 2 and a file with the tag 1, both followed by the header
  and the matrix of a feature of one frame with the single coefficient 5.
\<close>

definition tagged_disk :: "byte \<Rightarrow> FileSystem" where
  "tagged_disk tag = \<lparr>files = (\<lambda>p. if p = ''/wakeword.bin''
       then Some [tag, 1, 0, 0, 0, 1, 0, 0, 0, 5, 0] else None),
     wb_openable = (\<lambda>p. True), free_space = 1024\<rparr>"

text \<open>The bytes of the file that \<^verbatim>\<open>saveFile\<close> writes for a feature.\<close>

definition file_image :: "MfccFeature \<Rightarrow> byte list" where
  "file_image F = [VERSION1] @ le32 (word_of_int (m_frame_num F)) @
     le32 (word_of_int (m_coef_num F)) @ concat (map le16 (m_feature F))"

subsection \<open>DTW distance: \<^verbatim>\<open>simplevox_dtw.cpp\<close>, \<^verbatim>\<open>detail/simplevox_dtw.h\<close>\<close>

text \<open>
  \<^verbatim>\<open>InnerProduct\<close> accumulates in an \<^verbatim>\<open>int\<close>; the one-vector overload of the header is
  \<open>InnerProduct_self\<close>. The vectors are pointers into a feature buffer, here the buffer
  from the pointer on.
\<close>

definition kDistanceCoef :: int where
  "kDistanceCoef = 1000"

definition InnerProduct :: "16 word list \<Rightarrow> int \<Rightarrow> 16 word list \<Rightarrow> int" where
  "InnerProduct vec1 n vec2 =
     fold (\<lambda>i val. val + sint (vec1 ! i) * sint (vec2 ! i)) [0..<nat n] 0"

definition InnerProduct_self :: "16 word list \<Rightarrow> int \<Rightarrow> int" where
  "InnerProduct_self vec n = InnerProduct vec n vec"

text \<open>
  \<^verbatim>\<open>CosineDistancef\<close> and \<^verbatim>\<open>CosineDistance\<close>. The source computes in \<^verbatim>\<open>float\<close>; the model
  computes in the real numbers, that is, without rounding. \<^verbatim>\<open>CosineDistance\<close> converts
  the product with \<^verbatim>\<open>kDistanceCoef\<close> to \<^verbatim>\<open>uint32_t\<close>, which truncates towards zero.

  The properties below use four facts about the cost, each of which holds for the
  \<^verbatim>\<open>float\<close> computation as well: the cost is 1000 when one of the two inner products of a
  vector with itself is 0 (no \<^verbatim>\<open>float\<close> division takes place); it is 0 for a vector with
  a nonzero inner product compared with itself (the correctly rounded square root of a
  rounded square is the number itself, so the quotient is exactly 1); it does not depend
  on the order of the two vectors; and it is at most 2000 (a quotient that rounding
  pushes beyond \<open>-1\<close> stays below 2001 after the multiplication, and the conversion
  truncates). The values the examples evaluate are exact: the quotients are 1, or the
  branch for a zero inner product is taken.
\<close>

definition CosineDistancef :: "int \<Rightarrow> int \<Rightarrow> int \<Rightarrow> real" where
  "CosineDistancef inner12 inner1 inner2 =
     1 - (if inner1 = 0 \<or> inner2 = 0 then 0
          else real_of_int inner12 / sqrt (real_of_int inner1 * real_of_int inner2))"

definition truncate_real :: "real \<Rightarrow> int" where
  "truncate_real x = (if 0 \<le> x then \<lfloor>x\<rfloor> else \<lceil>x\<rceil>)"

definition CosineDistance :: "int \<Rightarrow> int \<Rightarrow> int \<Rightarrow> 32 word" where
  "CosineDistance inner12 inner1 inner2 =
     word_of_int (truncate_real (real_of_int kDistanceCoef * CosineDistancef inner12 inner1 inner2))"

text \<open>
  The state of the dynamic program: the two rolling rows \<^verbatim>\<open>step_distances\<close>
  (\<^verbatim>\<open>uint32_t\<close>) and \<^verbatim>\<open>step_counts\<close> (\<^verbatim>\<open>int16_t\<close>), and inside a row the two scalars
  \<^verbatim>\<open>prev_step_dist\<close> (\<^verbatim>\<open>uint32_t\<close>) and \<^verbatim>\<open>prev_step_count\<close> (\<^verbatim>\<open>int\<close>). An \<^verbatim>\<open>int\<close> stored in
  \<^verbatim>\<open>step_counts\<close> is converted with \<open>word_of_int\<close> and read back with \<open>sint\<close>.
\<close>

record dtw_rows =
  step_distances :: "32 word list"
  step_counts :: "16 word list"

record dtw_state = dtw_rows +
  prev_step_dist :: "32 word"
  prev_step_count :: int

text \<open>
  Lines 58 to 71: the cell \<open>(0, 0)\<close> and the rest of the first row. The two arrays
  are allocated without initialisation; every cell is written before it is read, so
  the model starts them with zeros.
\<close>

definition first_row_body :: "MfccFeature \<Rightarrow> MfccFeature \<Rightarrow> int \<Rightarrow> nat \<Rightarrow> dtw_rows \<Rightarrow> dtw_rows" where
  "first_row_body feature1 feature2 inner1_0 j r =
    (let dimension = dimension feature1;
         inner12_j = InnerProduct (feature feature1 0) dimension (feature feature2 (int j));
         inner2_j = InnerProduct_self (feature feature2 (int j)) dimension
     in r\<lparr>step_distances := (step_distances r)
              [j := step_distances r ! (j - 1) + CosineDistance inner12_j inner1_0 inner2_j],
          step_counts := (step_counts r)[j := word_of_int (int j)]\<rparr>)"

definition first_row :: "MfccFeature \<Rightarrow> MfccFeature \<Rightarrow> dtw_rows" where
  "first_row feature1 feature2 =
    (let dimension = dimension feature1;
         inner1_0 = InnerProduct_self (feature feature1 0) dimension;
         inner2_0 = InnerProduct_self (feature feature2 0) dimension;
         r = \<lparr>step_distances = replicate (nat (size_feature feature2)) 0,
              step_counts = replicate (nat (size_feature feature2)) 0\<rparr>;
         r = r\<lparr>step_distances := (step_distances r)
                [0 := 2 * CosineDistance
                        (InnerProduct (feature feature1 0) dimension (feature feature2 0))
                        inner1_0 inner2_0],
              step_counts := (step_counts r)[0 := 0]\<rparr>
     in fold (first_row_body feature1 feature2 inner1_0) [1..<nat (size_feature feature2)] r)"

text \<open>
  Lines 82 to 98: the choice among the three predecessors of a cell. \<open>up\<close> is
  \<^verbatim>\<open>step_distances[j]\<close> with \<^verbatim>\<open>step_counts[j]\<close>, the cell \<open>(i - 1, j)\<close>; \<open>prev\<close> is
  \<^verbatim>\<open>prev_step_dist\<close> with \<^verbatim>\<open>prev_step_count\<close>, the cell \<open>(i, j - 1)\<close> to the left; \<open>diag\<close>
  is \<^verbatim>\<open>step_distances[j - 1]\<close> with \<^verbatim>\<open>step_counts[j - 1]\<close>, the cell \<open>(i - 1, j - 1)\<close>.
\<close>

definition select_step :: "32 word \<times> int \<Rightarrow> 32 word \<times> int \<Rightarrow> 32 word \<times> int \<Rightarrow> 32 word \<times> int" where
  "select_step up prev diag =
    (let (step_dist, step_count) = (if fst up < fst prev then up else prev)
     in if fst diag < step_dist then diag else (step_dist, step_count))"

text \<open>Lines 80 to 108: one iteration of the inner loop.\<close>

definition inner_body :: "MfccFeature \<Rightarrow> MfccFeature \<Rightarrow> nat \<Rightarrow> int \<Rightarrow> nat \<Rightarrow> dtw_state \<Rightarrow> dtw_state" where
  "inner_body feature1 feature2 i inner1_i j s =
    (let dimension = dimension feature1;
         (step_dist, step_count) =
            select_step (step_distances s ! j, sint (step_counts s ! j))
                        (prev_step_dist s, prev_step_count s)
                        (step_distances s ! (j - 1), sint (step_counts s ! (j - 1)));
         inner12_ij = InnerProduct (feature feature1 (int i)) dimension (feature feature2 (int j));
         inner2_j = InnerProduct_self (feature feature2 (int j)) dimension;
         step_dist = step_dist + CosineDistance inner12_ij inner1_i inner2_j;
         step_count = step_count + 1
     in s\<lparr>step_distances := (step_distances s)[j - 1 := prev_step_dist s],
          step_counts := (step_counts s)[j - 1 := word_of_int (prev_step_count s)],
          prev_step_dist := step_dist,
          prev_step_count := step_count\<rparr>)"

text \<open>Lines 74 to 111: one iteration of the outer loop.\<close>

definition outer_body :: "MfccFeature \<Rightarrow> MfccFeature \<Rightarrow> nat \<Rightarrow> dtw_rows \<Rightarrow> dtw_rows" where
  "outer_body feature1 feature2 i r =
    (let dimension = dimension feature1;
         inner2_0 = InnerProduct_self (feature feature2 0) dimension;
         last = nat (size_feature feature2 - 1);
         inner1_i = InnerProduct_self (feature feature1 (int i)) dimension;
         inner12_i0 = InnerProduct (feature feature1 (int i)) dimension (feature feature2 0);
         s = \<lparr>step_distances = step_distances r, step_counts = step_counts r,
              prev_step_dist = step_distances r ! 0 + CosineDistance inner12_i0 inner1_i inner2_0,
              prev_step_count = sint (step_counts r ! 0) + 1\<rparr>;
         s = fold (inner_body feature1 feature2 i inner1_i) [1..<nat (size_feature feature2)] s
     in \<lparr>step_distances = (step_distances s)[last := prev_step_dist s],
         step_counts = (step_counts s)[last := word_of_int (prev_step_count s)]\<rparr>)"

text \<open>
  Lines 58 to 111: the dynamic program, from the first row to the rows after the last
  iteration of the outer loop.
\<close>

definition dynamic_program :: "MfccFeature \<Rightarrow> MfccFeature \<Rightarrow> dtw_rows" where
  "dynamic_program feature1 feature2 =
     fold (outer_body feature1 feature2) [1..<nat (size_feature feature1)]
       (first_row feature1 feature2)"

text \<open>
  \<^verbatim>\<open>calcDTW\<close>. \<open>nothrow_new n\<close> tells whether \<^verbatim>\<open>new (std::nothrow)\<close> of \<open>n\<close> bytes
  returns a buffer. The quotient of the last line divides a \<^verbatim>\<open>uint32_t\<close> by an
  \<^verbatim>\<open>int16_t\<close>: the divisor is sign-extended and converted to \<^verbatim>\<open>uint32_t\<close>, and a zero
  divisor is an error of its own, which C++ leaves undefined.
\<close>

datatype dtw_error = DivisionByZero

definition UINT32_MAX :: "32 word" where
  "UINT32_MAX = 0xFFFFFFFF"

definition calcDTW :: "(nat \<Rightarrow> bool) \<Rightarrow> MfccFeature \<Rightarrow> MfccFeature \<Rightarrow> dtw_error + 32 word" where
  "calcDTW nothrow_new feature1 feature2 =
    (if dimension feature1 \<noteq> dimension feature2 then Inr UINT32_MAX
     else if size_feature feature1 \<le> 0 \<or> size_feature feature2 \<le> 0 then Inr UINT32_MAX
     else if size_feature feature1 > 3 * size_feature feature2
           \<or> 3 * size_feature feature1 < size_feature feature2 then Inr UINT32_MAX
     else if \<not> nothrow_new (2 * nat (size_feature feature2))
           \<or> \<not> nothrow_new (4 * nat (size_feature feature2)) then Inr UINT32_MAX
     else
       let last = nat (size_feature feature2 - 1);
           r = dynamic_program feature1 feature2;
           divisor = (scast (step_counts r ! last) :: 32 word)
       in if divisor = 0 then Inl DivisionByZero
          else Inr (step_distances r ! last div divisor))"

subsection \<open>DTW distance: auxiliary definitions\<close>

text \<open>
  The rolling rows after the outer iterations \<open>1, \<dots>, i\<close>; for \<open>i = 0\<close> the first row.
  For a first feature of \<open>m\<close> frames \<open>dynamic_program\<close> ends with
  \<open>rows_after feature1 feature2 (m - 1)\<close>.
\<close>

definition rows_after :: "MfccFeature \<Rightarrow> MfccFeature \<Rightarrow> nat \<Rightarrow> dtw_rows" where
  "rows_after feature1 feature2 i =
     fold (outer_body feature1 feature2) [1..<Suc i] (first_row feature1 feature2)"

text \<open>
  The cost of the cell \<open>(i, j)\<close>: the \<^verbatim>\<open>CosineDistance\<close> of frame \<open>i\<close> of the first
  feature and frame \<open>j\<close> of the second, as every cell of \<^verbatim>\<open>calcDTW\<close> computes it.
\<close>

definition cost :: "MfccFeature \<Rightarrow> MfccFeature \<Rightarrow> nat \<Rightarrow> nat \<Rightarrow> 32 word" where
  "cost f1 f2 i j =
     CosineDistance (InnerProduct (feature f1 (int i)) (dimension f1) (feature f2 (int j)))
       (InnerProduct_self (feature f1 (int i)) (dimension f1))
       (InnerProduct_self (feature f2 (int j)) (dimension f1))"

text \<open>
  The dynamic program as a table: \<open>cell f1 f2 i j\<close> is the accumulated distance and the
  step count that \<^verbatim>\<open>calcDTW\<close> computes for the cell \<open>(i, j)\<close>, the count as the \<^verbatim>\<open>int\<close> it
  is before it is stored in \<^verbatim>\<open>step_counts\<close>. \<open>stored\<close> is a cell read back from the rows.
  The rolling rows of the code are shown to hold this table row by row
  (\<open>rows_after_cell\<close> below).
\<close>

definition stored :: "32 word \<times> int \<Rightarrow> 32 word \<times> int" where
  "stored c = (fst c, sint (word_of_int (snd c) :: 16 word))"

fun cell :: "MfccFeature \<Rightarrow> MfccFeature \<Rightarrow> nat \<Rightarrow> nat \<Rightarrow> 32 word \<times> int" where
  "cell f1 f2 0 0 = (2 * cost f1 f2 0 0, 0)"
| "cell f1 f2 0 (Suc j) = (fst (cell f1 f2 0 j) + cost f1 f2 0 (Suc j), int (Suc j))"
| "cell f1 f2 (Suc i) 0 =
     (fst (cell f1 f2 i 0) + cost f1 f2 (Suc i) 0, snd (stored (cell f1 f2 i 0)) + 1)"
| "cell f1 f2 (Suc i) (Suc j) =
     (let p = select_step (stored (cell f1 f2 i (Suc j))) (cell f1 f2 (Suc i) j)
                (stored (cell f1 f2 i j))
      in (fst p + cost f1 f2 (Suc i) (Suc j), snd p + 1))"

definition row_of :: "MfccFeature \<Rightarrow> MfccFeature \<Rightarrow> nat \<Rightarrow> dtw_rows" where
  "row_of f1 f2 i =
     \<lparr>step_distances = map (\<lambda>j. fst (cell f1 f2 i j)) [0..<nat (size_feature f2)],
      step_counts = map (\<lambda>j. word_of_int (snd (cell f1 f2 i j))) [0..<nat (size_feature f2)]\<rparr>"

text \<open>The invariant of the inner loop after the iterations \<open>1, \<dots>, k\<close> of row \<open>i + 1\<close>.\<close>

definition inner_inv :: "MfccFeature \<Rightarrow> MfccFeature \<Rightarrow> nat \<Rightarrow> nat \<Rightarrow> dtw_state \<Rightarrow> bool" where
  "inner_inv f1 f2 i k s \<longleftrightarrow>
     length (step_distances s) = nat (size_feature f2) \<and>
     length (step_counts s) = nat (size_feature f2) \<and>
     (\<forall>t<k. step_distances s ! t = fst (cell f1 f2 (Suc i) t) \<and>
            step_counts s ! t = word_of_int (snd (cell f1 f2 (Suc i) t))) \<and>
     (\<forall>t. k \<le> t \<and> t < nat (size_feature f2) \<longrightarrow>
            step_distances s ! t = fst (cell f1 f2 i t) \<and>
            step_counts s ! t = word_of_int (snd (cell f1 f2 i t))) \<and>
     prev_step_dist s = fst (cell f1 f2 (Suc i) k) \<and>
     prev_step_count s = snd (cell f1 f2 (Suc i) k)"

text \<open>
  A feature whose buffer holds \<^verbatim>\<open>frame_num_ * coef_num_\<close> values, as the constructor of
  \<^verbatim>\<open>MfccFeature\<close> allocates it. For such features every index \<^verbatim>\<open>calcDTW\<close> reads is in
  range.
\<close>

definition buffer_ok :: "MfccFeature \<Rightarrow> bool" where
  "buffer_ok f \<longleftrightarrow> length (m_feature f) = nat (m_frame_num f * m_coef_num f)"

text \<open>
  Features for the examples, all of dimension 1: one and two frames \<open>[1]\<close>, two frames
  \<open>[0]\<close>, the frames \<open>[0], [0], [1]\<close>, and features of four and of six frames \<open>[1]\<close>;
  and an allocator that never fails.
\<close>

definition ones1 :: MfccFeature where
  "ones1 = \<lparr>m_frame_num = 1, m_coef_num = 1, m_feature = [1]\<rparr>"

definition ones2 :: MfccFeature where
  "ones2 = \<lparr>m_frame_num = 2, m_coef_num = 1, m_feature = [1, 1]\<rparr>"

definition zeros2 :: MfccFeature where
  "zeros2 = \<lparr>m_frame_num = 2, m_coef_num = 1, m_feature = [0, 0]\<rparr>"

definition zero_zero_one :: MfccFeature where
  "zero_zero_one = \<lparr>m_frame_num = 3, m_coef_num = 1, m_feature = [0, 0, 1]\<rparr>"

definition ones4 :: MfccFeature where
  "ones4 = \<lparr>m_frame_num = 4, m_coef_num = 1, m_feature = [1, 1, 1, 1]\<rparr>"

definition ones6 :: MfccFeature where
  "ones6 = \<lparr>m_frame_num = 6, m_coef_num = 1, m_feature = [1, 1, 1, 1, 1, 1]\<rparr>"

definition enough_memory :: "nat \<Rightarrow> bool" where
  "enough_memory n = True"

section \<open>Properties\<close>

subsection \<open>Voice activity detection: properties\<close>

lemma VadEngine_init_config_accepted:
  "fst (VadEngine_init vc c e) \<Longrightarrow> config_accepted (vad_config (snd (VadEngine_init vc c e)))"
  by (auto simp: VadEngine_init_def config_accepted_def Let_def split: if_splits)

lemma process_all_append:
  "process_all vp (xs @ ys) e = process_all vp ys (process_all vp xs e)"
  by (induction xs arbitrary: e) simp_all









lemma vad_inv_reset: "vad_inv (reset e)"
  by (simp add: vad_inv_def reset_def)

lemma vad_inv_process: "vad_inv e \<Longrightarrow> vad_inv (process vp d e)"
  by (auto simp add: vad_inv_def process_def Let_def transition_def classify_def
      split: prod.splits VadState.splits if_splits)

lemma vad_inv_process_all: "vad_inv e \<Longrightarrow> vad_inv (process_all vp ds e)"
  by (induction ds arbitrary: e) (simp_all add: vad_inv_process)

lemma process_retract:
  "vad_state e = PreDetection \<Longrightarrow> \<not> fst (classify vp d e) \<Longrightarrow>
   vad_state (process vp d e) = Silence \<and>
   frame_count (process vp d e) = frame_count e - (state_count e + 1) \<and>
   state_count (process vp d e) = 0"
  by (auto simp add: process_def Let_def transition_def classify_def split: prod.splits if_splits)

lemma process_into_PreDetection:
  "vad_state (process vp d e) = PreDetection \<Longrightarrow>
   (vad_state e = Silence \<and> has_satisfied_hangbefore e \<and> state_count (process vp d e) = 0 \<and>
      frame_count (process vp d e) = frame_count e + 1) \<or>
   (vad_state e = PreDetection \<and> state_count (process vp d e) = state_count e + 1 \<and>
      frame_count (process vp d e) = frame_count e + 1)"
  by (auto simp add: process_def Let_def transition_def classify_def
      split: prod.splits VadState.splits if_splits)

lemma PreDetection_entry:
  assumes "vad_state (process_all vp ds e0) = PreDetection" and "vad_state e0 \<noteq> PreDetection"
  shows "\<exists>pre d0 post. ds = pre @ d0 # post \<and>
           vad_state (process_all vp pre e0) = Silence \<and>
           (\<forall>k\<le>length post. vad_state (process_all vp (pre @ d0 # take k post) e0) = PreDetection) \<and>
           frame_count (process_all vp ds e0) =
             frame_count (process_all vp pre e0) + 1 + state_count (process_all vp ds e0)"
  using assms
proof (induction ds rule: rev_induct)
  case Nil
  then show ?case by simp
next
  case (snoc x xs)
  let ?e = "process_all vp xs e0"
  have run: "process_all vp (xs @ [x]) e0 = process vp x ?e"
    by (simp add: process_all_append)
  from snoc.prems(1) have pd: "vad_state (process vp x ?e) = PreDetection"
    by (simp add: run)
  from process_into_PreDetection[OF pd]
  consider (entry) "vad_state ?e = Silence" "state_count (process vp x ?e) = 0"
      "frame_count (process vp x ?e) = frame_count ?e + 1"
    | (stay) "vad_state ?e = PreDetection" "state_count (process vp x ?e) = state_count ?e + 1"
      "frame_count (process vp x ?e) = frame_count ?e + 1"
    by blast
  then show ?case
  proof cases
    case entry
    have "xs @ [x] = xs @ x # []" by simp
    moreover have "\<forall>k\<le>length ([]::'b list). vad_state (process_all vp (xs @ x # take k []) e0) = PreDetection"
      using pd by (simp add: process_all_append)
    moreover have "frame_count (process_all vp (xs @ [x]) e0) =
        frame_count ?e + 1 + state_count (process_all vp (xs @ [x]) e0)"
      using entry by (simp add: run)
    ultimately show ?thesis using entry(1) by blast
  next
    case stay
    from snoc.IH[OF stay(1) snoc.prems(2)] obtain pre d0 post where
      dec: "xs = pre @ d0 # post" and
      sil: "vad_state (process_all vp pre e0) = Silence" and
      mid: "\<forall>k\<le>length post. vad_state (process_all vp (pre @ d0 # take k post) e0) = PreDetection" and
      fc: "frame_count ?e = frame_count (process_all vp pre e0) + 1 + state_count ?e"
      by blast
    have d2: "xs @ [x] = pre @ d0 # (post @ [x])" using dec by simp
    have m2: "\<forall>k\<le>length (post @ [x]).
        vad_state (process_all vp (pre @ d0 # take k (post @ [x])) e0) = PreDetection"
    proof (intro allI impI)
      fix k assume k: "k \<le> length (post @ [x])"
      show "vad_state (process_all vp (pre @ d0 # take k (post @ [x])) e0) = PreDetection"
      proof (cases "k \<le> length post")
        case True
        then show ?thesis using mid by simp
      next
        case False
        with k have "take k (post @ [x]) = post @ [x]" by simp
        then show ?thesis using snoc.prems(1) dec by simp
      qed
    qed
    have f2: "frame_count (process_all vp (xs @ [x]) e0) =
        frame_count (process_all vp pre e0) + 1 + state_count (process_all vp (xs @ [x]) e0)"
      using stay fc by (simp add: run)
    show ?thesis using d2 sil m2 f2 by blast
  qed
qed


text \<open>
  Claim C5. Let the engine be in \<open>PreDetection\<close> after the frames \<open>ds\<close> processed since
  \<^verbatim>\<open>reset\<close>, and let the next frame be classified non-speech. Then the call of
  \<^verbatim>\<open>process\<close> leaves the engine in \<open>Silence\<close>, and \<open>ds\<close> splits into the frames
  \<open>pre\<close> before the entry, the frame \<open>d0\<close> that moved the engine from \<open>Silence\<close> to
  \<open>PreDetection\<close> and the frames \<open>post\<close> during which it stayed there, such that
  \<^verbatim>\<open>frame_count_\<close> is again what it was after \<open>pre\<close>: the entry frame and the tentative
  frames are retracted exactly.
\<close>

theorem PreDetection_non_speech_retracts:
  assumes "config_accepted (vad_config e0)"
    and "vad_state (process_all vp ds (reset e0)) = PreDetection"
    and "\<not> fst (classify vp d (process_all vp ds (reset e0)))"
  shows "vad_state (process vp d (process_all vp ds (reset e0))) = Silence \<and>
    (\<exists>pre d0 post. ds = pre @ d0 # post \<and>
       vad_state (process_all vp pre (reset e0)) = Silence \<and>
       (\<forall>k\<le>length post.
          vad_state (process_all vp (pre @ d0 # take k post) (reset e0)) = PreDetection) \<and>
       frame_count (process vp d (process_all vp ds (reset e0))) =
         frame_count (process_all vp pre (reset e0)))"
proof -
  let ?e = "process_all vp ds (reset e0)"
  have "vad_state (reset e0) \<noteq> PreDetection" by (simp add: reset_def)
  from PreDetection_entry[OF assms(2) this] obtain pre d0 post where
    dec: "ds = pre @ d0 # post" and
    sil: "vad_state (process_all vp pre (reset e0)) = Silence" and
    mid: "\<forall>k\<le>length post.
            vad_state (process_all vp (pre @ d0 # take k post) (reset e0)) = PreDetection" and
    fc: "frame_count ?e = frame_count (process_all vp pre (reset e0)) + 1 + state_count ?e"
    by blast
  from process_retract[OF assms(2) assms(3)] have
    st: "vad_state (process vp d ?e) = Silence" and
    fr: "frame_count (process vp d ?e) = frame_count ?e - (state_count ?e + 1)"
    by simp_all
  from fr fc have "frame_count (process vp d ?e) = frame_count (process_all vp pre (reset e0))"
    by simp
  with st dec sil mid show ?thesis by blast
qed

text \<open>The equations that evaluate a run of the example engine.\<close>

lemmas vad_eval = process_def transition_def classify_def reset_def Let_def
  hang0_engine_def hang0_config_def counting_classifier_def config_accepted_def
  frame_length_def decision_length_def before_length_def warmup_length_def over_length_def
  DivCeil_def c_div_def frame_time_ms_def

theorem PreDetection_non_speech_retracts_witness:
  "config_accepted (vad_config hang0_engine) \<and>
   vad_state (process_all counting_classifier [False, False, False, True] (reset hang0_engine)) = PreDetection \<and>
   \<not> fst (classify counting_classifier False
       (process_all counting_classifier [False, False, False, True] (reset hang0_engine))) \<and>
   vad_state (process counting_classifier False
       (process_all counting_classifier [False, False, False, True] (reset hang0_engine))) = Silence \<and>
   frame_count (process_all counting_classifier [False, False, False] (reset hang0_engine)) = 1 \<and>
   frame_count (process counting_classifier False
       (process_all counting_classifier [False, False, False, True] (reset hang0_engine))) = 1"
  using PreDetection_non_speech_retracts[of hang0_engine counting_classifier
      "[False, False, False, True]" False]
  by (simp add: vad_eval)




text \<open>
  Claim C10. In every state reached from \<^verbatim>\<open>reset\<close> by a sequence of \<^verbatim>\<open>process\<close>
  calls, for any classifier, \<^verbatim>\<open>frame_count_\<close> is not negative. In \<open>PreDetection\<close> it
  exceeds \<^verbatim>\<open>state_count_\<close>, so the retraction on a non-speech frame, which subtracts
  the incremented \<^verbatim>\<open>state_count_\<close>, does not make it negative.
\<close>

theorem frame_count_never_negative:
  assumes "config_accepted (vad_config e0)"
  shows "0 \<le> frame_count (process_all vp ds (reset e0)) \<and>
    (vad_state (process_all vp ds (reset e0)) = PreDetection \<longrightarrow>
       state_count (process_all vp ds (reset e0)) + 1 \<le> frame_count (process_all vp ds (reset e0)) \<and>
       (\<not> fst (classify vp d (process_all vp ds (reset e0))) \<longrightarrow>
          frame_count (process vp d (process_all vp ds (reset e0))) =
            frame_count (process_all vp ds (reset e0)) - (state_count (process_all vp ds (reset e0)) + 1) \<and>
          0 \<le> frame_count (process vp d (process_all vp ds (reset e0)))))"
proof -
  let ?e = "process_all vp ds (reset e0)"
  have inv: "vad_inv ?e" by (simp add: vad_inv_process_all vad_inv_reset)
  then have inv': "vad_inv (process vp d ?e)" by (rule vad_inv_process)
  from inv have 1: "0 \<le> frame_count ?e" by (simp add: vad_inv_def)
  from inv have 2: "vad_state ?e = PreDetection \<longrightarrow> state_count ?e + 1 \<le> frame_count ?e"
    by (simp add: vad_inv_def)
  from inv' have 3: "0 \<le> frame_count (process vp d ?e)" by (simp add: vad_inv_def)
  have 4: "vad_state ?e = PreDetection \<longrightarrow> \<not> fst (classify vp d ?e) \<longrightarrow>
      frame_count (process vp d ?e) = frame_count ?e - (state_count ?e + 1)"
    using process_retract[of ?e vp d] by blast
  from 1 2 3 4 show ?thesis by blast
qed

theorem frame_count_never_negative_witness:
  "config_accepted (vad_config hang0_engine) \<and>
   vad_state (process_all counting_classifier [False, False, False, True, True] (reset hang0_engine)) = PreDetection \<and>
   state_count (process_all counting_classifier [False, False, False, True, True] (reset hang0_engine)) = 1 \<and>
   frame_count (process_all counting_classifier [False, False, False, True, True] (reset hang0_engine)) = 3 \<and>
   \<not> fst (classify counting_classifier False
       (process_all counting_classifier [False, False, False, True, True] (reset hang0_engine))) \<and>
   frame_count (process counting_classifier False
       (process_all counting_classifier [False, False, False, True, True] (reset hang0_engine))) = 1"
  using frame_count_never_negative[of hang0_engine counting_classifier
      "[False, False, False, True, True]" False]
  by (simp add: vad_eval)

subsection \<open>MFCC engine configuration: properties\<close>

lemma dsp_pow2_512: "dsp_is_power_of_two 512"
proof -
  have "(512::int) = 2 ^ 9" by simp
  moreover have "(9::nat) \<in> set [0..<31]" by simp
  ultimately show ?thesis unfolding dsp_is_power_of_two_def set_map by (rule image_eqI)
qed

lemma default_frame_length: "mfcc_frame_length default_MfccConfig = 512"
  by (simp add: mfcc_frame_length_def default_MfccConfig_def c_div_def)

lemma Verify_default_coef:
  "0 \<le> n \<Longrightarrow> VerifyMfccConfig (default_MfccConfig\<lparr>coef_num := n\<rparr>)"
  using dsp_pow2_512
  by (simp add: VerifyMfccConfig_def mfcc_frame_length_def default_MfccConfig_def c_div_def)

lemma Verify_coef_num_irrelevant:
  "0 \<le> coef_num c \<Longrightarrow> 0 \<le> n \<Longrightarrow> VerifyMfccConfig (c\<lparr>coef_num := n\<rparr>) = VerifyMfccConfig c"
  by (simp add: VerifyMfccConfig_def mfcc_frame_length_def)

text \<open>
  Claim C4, as stated, fails: with the default configuration and every resource
  available, \<^verbatim>\<open>init\<close> returns true for \<^verbatim>\<open>coef_num = 0\<close> and for
  \<^verbatim>\<open>coef_num = 25 > mel_channel = 24\<close>.
\<close>

theorem init_counterexample:
  "MfccEngine_init generous_env (default_MfccConfig\<lparr>coef_num := 0\<rparr>) \<and>
   MfccEngine_init generous_env (default_MfccConfig\<lparr>coef_num := 25\<rparr>)"
  using Verify_default_coef[of 0] Verify_default_coef[of 25]
  by (simp add: MfccEngine_init_def generous_env_def)

text \<open>
  Claim C4, amended. \<^verbatim>\<open>MfccEngine::init\<close> returns false for every configuration with a
  negative \<^verbatim>\<open>coef_num\<close>. Beyond its sign \<^verbatim>\<open>coef_num\<close> is not validated: for every
  \<^verbatim>\<open>coef_num \<ge> 0\<close>, zero and values above \<^verbatim>\<open>mel_channel\<close> included, \<^verbatim>\<open>init\<close> returns
  true when the other members pass \<^verbatim>\<open>VerifyMfccConfig\<close>, the buffers can be allocated and
  the FFT driver initialises.
\<close>

theorem init_checks_sign_of_coef_num:
  "(coef_num config < 0 \<longrightarrow> \<not> MfccEngine_init env config) \<and>
   (0 \<le> coef_num config \<and> VerifyMfccConfig (config\<lparr>coef_num := 1\<rparr>) \<and> resources_ok env config
      \<longrightarrow> MfccEngine_init env config)"
proof -
  have a: "coef_num config < 0 \<longrightarrow> \<not> MfccEngine_init env config"
    by (simp add: MfccEngine_init_def VerifyMfccConfig_def)
  have b: "0 \<le> coef_num config \<and> VerifyMfccConfig (config\<lparr>coef_num := 1\<rparr>) \<and> resources_ok env config
      \<longrightarrow> MfccEngine_init env config"
  proof (intro impI, elim conjE)
    assume c: "0 \<le> coef_num config" and v: "VerifyMfccConfig (config\<lparr>coef_num := 1\<rparr>)"
      and r: "resources_ok env config"
    have "VerifyMfccConfig config"
      using v c by (auto simp add: VerifyMfccConfig_def mfcc_frame_length_def split: if_splits)
    then show "MfccEngine_init env config"
      using r by (simp add: MfccEngine_init_def resources_ok_def)
  qed
  from a b show ?thesis by blast
qed

theorem init_checks_sign_of_coef_num_witness:
  "\<not> MfccEngine_init generous_env (default_MfccConfig\<lparr>coef_num := -1\<rparr>) \<and>
   VerifyMfccConfig (default_MfccConfig\<lparr>coef_num := 1\<rparr>) \<and>
   resources_ok generous_env (default_MfccConfig\<lparr>coef_num := 30\<rparr>) \<and>
   MfccEngine_init generous_env (default_MfccConfig\<lparr>coef_num := 30\<rparr>)"
  using init_checks_sign_of_coef_num[of "default_MfccConfig\<lparr>coef_num := -1\<rparr>" generous_env]
    init_checks_sign_of_coef_num[of "default_MfccConfig\<lparr>coef_num := 30\<rparr>" generous_env]
    Verify_default_coef[of 1]
  by (simp add: resources_ok_def generous_env_def default_MfccConfig_def)

subsection \<open>Feature file: properties\<close>

lemma of_le_le16: "(of_le (le16 w) :: 16 word) = w"
  by (rule bit_word_eqI) (auto simp: le16_def bit_simps)

lemma of_le_le32: "(of_le (le32 w) :: 32 word) = w"
proof (rule bit_word_eqI)
  fix n assume n: "n < LENGTH(32)"
  have c: "n < 8 \<or> (8 \<le> n \<and> n < 16) \<or> (16 \<le> n \<and> n < 24) \<or> (24 \<le> n \<and> n < 32)"
    using n by auto
  have e8: "8 \<le> n \<Longrightarrow> 8 + (n - 8) = n" and e16: "16 \<le> n \<Longrightarrow> 16 + (n - 16) = n"
    and e24: "24 \<le> n \<Longrightarrow> 24 + (n - 24) = n" by simp_all
  from c show "bit (of_le (le32 w) :: 32 word) n = bit w n"
    by (elim disjE) (auto simp: le32_def bit_simps e8 e16 e24)
qed

lemma length_le16: "length (le16 w) = 2" by (simp add: le16_def)
lemma length_le32: "length (le32 w) = 4" by (simp add: le32_def)

lemma fwrite_fits:
  "length (concat items) \<le> wspace file \<Longrightarrow>
   fwrite items file = (length items, file\<lparr>wbytes := wbytes file @ concat items,
                                              wspace := wspace file - length (concat items)\<rparr>)"
proof (induction items arbitrary: "file")
  case Nil
  then show ?case by simp
next
  case (Cons item items)
  then show ?case by simp
qed

lemma fread_items:
  "\<forall>item \<in> set items. length item = n \<Longrightarrow>
   fread n (length items) (concat items @ rest) = (items, rest)"
  by (induction items) simp_all

lemma concat_le16_length: "length (concat (map le16 xs)) = 2 * length xs"
  by (induction xs) (simp_all add: length_le16)

lemma fread_one:
  "length item = n \<Longrightarrow> fread n 1 (item @ rest) = ([item], rest)"
  using fread_items[of "[item]" n rest] by simp

lemma size_t_of_nonneg: "0 \<le> x \<Longrightarrow> x < 2 ^ 32 \<Longrightarrow> size_t_of x = nat x"
  by (simp add: size_t_of_def)

lemma sint_word_of_int_32: "- (2 ^ 31) \<le> x \<Longrightarrow> x < 2 ^ 31 \<Longrightarrow> sint (word_of_int x :: 32 word) = x"
  by (simp add: int_word_sint)

lemma wf_feature_bounds:
  assumes "wf_feature F"
  shows "m_frame_num F < 2 ^ 31" "m_coef_num F < 2 ^ 31"
proof -
  from assms have p: "0 < m_frame_num F" "0 < m_coef_num F"
    "m_frame_num F * m_coef_num F < 2 ^ 31" by (simp_all add: wf_feature_def)
  have "m_frame_num F * 1 \<le> m_frame_num F * m_coef_num F"
    using p by (intro mult_left_mono) simp_all
  then have "m_frame_num F \<le> m_frame_num F * m_coef_num F" by simp
  then show "m_frame_num F < 2 ^ 31" using p(3) by linarith
  have "1 * m_coef_num F \<le> m_frame_num F * m_coef_num F"
    using p by (intro mult_right_mono) simp_all
  then have "m_coef_num F \<le> m_frame_num F * m_coef_num F" by simp
  then show "m_coef_num F < 2 ^ 31" using p(3) by linarith
qed

lemma saveFile_ok:
  assumes wf: "wf_feature F" and op: "wb_openable fs path"
    and sp: "9 + 2 * length (m_feature F) \<le> free_space fs"
  shows "saveFile fs path F =
    (True, fs\<lparr>files := (files fs)(path := Some (file_image F)),
              free_space := free_space fs - (9 + 2 * length (m_feature F))\<rparr>)"
proof -
  let ?n = "m_frame_num F * m_coef_num F"
  from wf have len: "length (m_feature F) = nat ?n" and pos: "0 \<le> ?n" and lt: "?n < 2 ^ 31"
    by (simp_all add: wf_feature_def)
  have st: "size_t_of ?n = length (m_feature F)"
    using pos lt len by (simp add: size_t_of_nonneg)
  have l: "length (concat (map le16 (take (length (m_feature F)) (m_feature F)))) = 2 * length (m_feature F)"
    by (simp add: concat_le16_length)
  show ?thesis
    using op sp
    by (simp add: saveFile_def Let_def fwrite_fits st size_feature_def dimension_def fclose_w_def
        file_image_def length_le32 concat_le16_length del: fwrite.simps)
qed

lemma loadFile_image:
  assumes wf: "wf_feature F" and fl: "files fs path = Some (t # tl (file_image F))"
    and hp: "heap_caps_malloc (2 * length (m_feature F))"
  shows "loadFile heap_caps_malloc fs path = Some F"
proof -
  let ?n = "m_frame_num F * m_coef_num F"
  from wf have len: "length (m_feature F) = nat ?n" and pos: "0 \<le> ?n" and lt: "?n < 2 ^ 31"
    and fp: "0 < m_frame_num F" and cp: "0 < m_coef_num F"
    by (simp_all add: wf_feature_def)
  note b = wf_feature_bounds[OF wf]
  have st: "size_t_of ?n = length (m_feature F)"
    using pos lt len by (simp add: size_t_of_nonneg)
  have s1: "sint (word_of_int (m_frame_num F) :: 32 word) = m_frame_num F"
    using fp b by (simp add: sint_word_of_int_32)
  have s2: "sint (word_of_int (m_coef_num F) :: 32 word) = m_coef_num F"
    using cp b by (simp add: sint_word_of_int_32)
  have sz: "(2 * size_t_of (m_frame_num F) * size_t_of (m_coef_num F)) mod 2 ^ 32
      = 2 * length (m_feature F)"
  proof -
    have "size_t_of (m_frame_num F) = nat (m_frame_num F)" "size_t_of (m_coef_num F) = nat (m_coef_num F)"
      using fp cp b by (simp_all add: size_t_of_nonneg)
    then have "2 * size_t_of (m_frame_num F) * size_t_of (m_coef_num F) = 2 * nat ?n"
      using fp cp by (simp add: nat_mult_distrib)
    moreover have "2 * nat ?n < 2 ^ 32" using lt pos by simp
    ultimately have "(2 * size_t_of (m_frame_num F) * size_t_of (m_coef_num F)) mod 2 ^ 32 = 2 * nat ?n"
      by (simp only: mod_less)
    then show ?thesis using len by simp
  qed
  have r0: "fread 1 1 (t # rest) = ([[t]], rest)" for rest
    using fread_one[of "[t]" 1 rest] by simp
  have tl: "tl (file_image F) = le32 (word_of_int (m_frame_num F)) @
     (le32 (word_of_int (m_coef_num F)) @ concat (map le16 (m_feature F)))"
    by (simp add: file_image_def)
  have r1: "fread 4 1 (le32 x @ rest) = ([le32 x], rest)" for x rest
    by (rule fread_one) (simp add: length_le32)
  have r3: "fread 2 (length (m_feature F)) (concat (map le16 (m_feature F))) =
      (map le16 (m_feature F), [])"
    using fread_items[of "map le16 (m_feature F)" 2 "[]"] by (simp add: length_le16)
  have m: "map of_le (map le16 (m_feature F)) = m_feature F"
    by (simp add: of_le_le16 comp_def)
  have hp': "heap_caps_malloc (2 * length (m_feature F)) = True" using hp by simp
  have rec: "\<lparr>m_frame_num = m_frame_num F, m_coef_num = m_coef_num F, m_feature = m_feature F\<rparr> = F"
    by simp
  show ?thesis
    by (simp only: loadFile_def fl option.case r0 tl r1 prod.case list.case Let_def of_le_le32
        s1 s2 sz st r3 m hp' length_map simp_thms if_True if_False rec)
qed

text \<open>
  Claim C6. For a feature with positive \<^verbatim>\<open>frame_num_\<close> and \<^verbatim>\<open>coef_num_\<close> (and a buffer
  of their product many values), on a storage that accepts the file: \<^verbatim>\<open>saveFile\<close>
  returns true; the file is the tag byte 1, \<^verbatim>\<open>frame_num_\<close> and \<^verbatim>\<open>coef_num_\<close> as 32-bit
  little-endian values and the matrix in row-major order, each value as 16-bit
  little-endian; and \<^verbatim>\<open>loadFile\<close> of that file returns a feature equal to the saved one.
\<close>

theorem save_then_load_roundtrip:
  assumes "wf_feature F" and "wb_openable fs path"
    and "9 + 2 * length (m_feature F) \<le> free_space fs"
    and "heap_caps_malloc (2 * length (m_feature F))"
  shows "fst (saveFile fs path F) \<and>
    files (snd (saveFile fs path F)) path =
      Some ([1] @ le32 (word_of_int (m_frame_num F)) @ le32 (word_of_int (m_coef_num F)) @
            concat (map le16 (m_feature F))) \<and>
    loadFile heap_caps_malloc (snd (saveFile fs path F)) path = Some F"
proof -
  note s = saveFile_ok[OF assms(1,2,3)]
  have img: "file_image F = VERSION1 # tl (file_image F)"
    by (simp add: file_image_def)
  have f: "files (snd (saveFile fs path F)) path = Some (VERSION1 # tl (file_image F))"
    using img by (simp add: s)
  from assms(1) f assms(4)
  have l: "loadFile heap_caps_malloc (snd (saveFile fs path F)) path = Some F"
    by (rule loadFile_image)
  have "files (snd (saveFile fs path F)) path = Some (file_image F)"
    by (simp add: s)
  then show ?thesis using l by (simp add: s file_image_def VERSION1_def)
qed

theorem save_then_load_roundtrip_witness:
  "wf_feature feature_E3 \<and> wb_openable empty_disk ''/wakeword.bin'' \<and>
   9 + 2 * length (m_feature feature_E3) \<le> free_space empty_disk \<and>
   fst (saveFile empty_disk ''/wakeword.bin'' feature_E3) \<and>
   files (snd (saveFile empty_disk ''/wakeword.bin'' feature_E3)) ''/wakeword.bin'' =
     Some [1, 3, 0, 0, 0, 4, 0, 0, 0,
           0, 0, 1, 0, 2, 0, 3, 0, 4, 0, 5, 0, 6, 0, 7, 0, 8, 0, 9, 0, 10, 0, 11, 0] \<and>
   loadFile (\<lambda>n. True) (snd (saveFile empty_disk ''/wakeword.bin'' feature_E3)) ''/wakeword.bin''
     = Some feature_E3"
  using save_then_load_roundtrip[of feature_E3 empty_disk "''/wakeword.bin''" "\<lambda>n. True"]
  by (simp add: wf_feature_def feature_E3_def empty_disk_def le32_def le16_def)

text \<open>
  Claim C3, as stated, fails: a file that starts with the unknown tag 2 is loaded.
\<close>

theorem loadFile_unknown_tag_counterexample:
  "loadFile (\<lambda>n. True) (tagged_disk 2) ''/wakeword.bin'' =
     Some \<lparr>m_frame_num = 1, m_coef_num = 1, m_feature = [5]\<rparr>"
  by (simp add: loadFile_def tagged_disk_def size_t_of_def Let_def)

text \<open>
  Claim C3, amended. \<^verbatim>\<open>loadFile\<close> reads the version tag and does not examine it:
  replacing the first byte of a file by any other byte does not change what
  \<^verbatim>\<open>loadFile\<close> returns, and a file that consists of any tag byte followed by the header
  and the matrix of a feature is loaded as that feature.
\<close>

theorem loadFile_ignores_tag:
  "(files fs path = Some (tag # rest) \<longrightarrow>
      loadFile heap_caps_malloc (fs\<lparr>files := (files fs)(path := Some (tag' # rest))\<rparr>) path =
      loadFile heap_caps_malloc fs path) \<and>
   (wf_feature F \<and> heap_caps_malloc (2 * length (m_feature F)) \<and>
    files fs path = Some ([tag] @ le32 (word_of_int (m_frame_num F)) @
       le32 (word_of_int (m_coef_num F)) @ concat (map le16 (m_feature F))) \<longrightarrow>
      loadFile heap_caps_malloc fs path = Some F)"
proof -
  have r0: "fread (Suc 0) (Suc 0) (t # r) = ([[t]], r)" for t r
    by simp
  have a: "files fs path = Some (tag # rest) \<longrightarrow>
      loadFile heap_caps_malloc (fs\<lparr>files := (files fs)(path := Some (tag' # rest))\<rparr>) path =
      loadFile heap_caps_malloc fs path"
    by (simp add: loadFile_def r0 del: fread.simps)
  have b: "wf_feature F \<and> heap_caps_malloc (2 * length (m_feature F)) \<and>
    files fs path = Some ([tag] @ le32 (word_of_int (m_frame_num F)) @
       le32 (word_of_int (m_coef_num F)) @ concat (map le16 (m_feature F))) \<longrightarrow>
      loadFile heap_caps_malloc fs path = Some F"
  proof (intro impI, elim conjE)
    assume wf: "wf_feature F" and hp: "heap_caps_malloc (2 * length (m_feature F))"
      and fl: "files fs path = Some ([tag] @ le32 (word_of_int (m_frame_num F)) @
       le32 (word_of_int (m_coef_num F)) @ concat (map le16 (m_feature F)))"
    have "files fs path = Some (tag # tl (file_image F))"
      using fl by (simp add: file_image_def)
    with wf show "loadFile heap_caps_malloc fs path = Some F"
      using hp by (rule loadFile_image)
  qed
  from a b show ?thesis by blast
qed

theorem loadFile_ignores_tag_witness:
  "files (tagged_disk 1) ''/wakeword.bin'' = Some (1 # [1, 0, 0, 0, 1, 0, 0, 0, 5, 0]) \<and>
   loadFile (\<lambda>n. True)
     ((tagged_disk 1)\<lparr>files := (files (tagged_disk 1))
        (''/wakeword.bin'' := Some (2 # [1, 0, 0, 0, 1, 0, 0, 0, 5, 0]))\<rparr>) ''/wakeword.bin'' =
     loadFile (\<lambda>n. True) (tagged_disk 1) ''/wakeword.bin'' \<and>
   wf_feature \<lparr>m_frame_num = 1, m_coef_num = 1, m_feature = [5]\<rparr> \<and>
   loadFile (\<lambda>n. True) (tagged_disk 7) ''/wakeword.bin'' =
     Some \<lparr>m_frame_num = 1, m_coef_num = 1, m_feature = [5]\<rparr>"
  using loadFile_ignores_tag[of "tagged_disk 1" "''/wakeword.bin''" 1 "[1, 0, 0, 0, 1, 0, 0, 0, 5, 0]"
      "\<lambda>n. True" 2 "\<lparr>m_frame_num = 1, m_coef_num = 1, m_feature = [5]\<rparr>"]
    loadFile_ignores_tag[of "tagged_disk 7" "''/wakeword.bin''" 7 "[1, 0, 0, 0, 1, 0, 0, 0, 5, 0]"
      "\<lambda>n. True" 7 "\<lparr>m_frame_num = 1, m_coef_num = 1, m_feature = [5]\<rparr>"]
  by (simp add: tagged_disk_def wf_feature_def le32_def le16_def)

subsection \<open>DTW distance: properties\<close>








text \<open>
  The cell cost: 1000 when a vector has the inner product 0 with itself, 0 between a
  vector and itself otherwise, symmetric in the two vectors, and at most 2000.
\<close>

lemma CosineDistance_zero:
  "inner1 = 0 \<or> inner2 = 0 \<Longrightarrow> CosineDistance inner12 inner1 inner2 = 1000"
  by (auto simp: CosineDistance_def CosineDistancef_def truncate_real_def kDistanceCoef_def)





text \<open>
  The rolling rows hold the table \<open>cell\<close>: the invariant of the inner loop, one outer
  iteration, the first row, and all rows by induction.
\<close>

lemma upt_1_Suc_Suc: "[1..<Suc (Suc k)] = [1..<Suc k] @ [Suc k]"
  by simp

lemma inner_inv_start:
  assumes "0 < nat (size_feature f2)"
  shows "inner_inv f1 f2 i 0
    \<lparr>step_distances = step_distances (row_of f1 f2 i), step_counts = step_counts (row_of f1 f2 i),
     prev_step_dist = step_distances (row_of f1 f2 i) ! 0 + cost f1 f2 (Suc i) 0,
     prev_step_count = sint (step_counts (row_of f1 f2 i) ! 0) + 1\<rparr>"
  using assms by (simp add: inner_inv_def row_of_def stored_def)

lemma inner_inv_step:
  assumes inv: "inner_inv f1 f2 i k s" and k: "Suc k < nat (size_feature f2)"
  shows "inner_inv f1 f2 i (Suc k)
    (inner_body f1 f2 (Suc i) (InnerProduct_self (feature f1 (int (Suc i))) (dimension f1)) (Suc k) s)"
proof -
  let ?n = "nat (size_feature f2)"
  from inv have len: "length (step_distances s) = ?n" "length (step_counts s) = ?n"
    and new: "\<And>t. t < k \<Longrightarrow> step_distances s ! t = fst (cell f1 f2 (Suc i) t) \<and>
            step_counts s ! t = word_of_int (snd (cell f1 f2 (Suc i) t))"
    and old: "\<And>t. k \<le> t \<Longrightarrow> t < ?n \<Longrightarrow> step_distances s ! t = fst (cell f1 f2 i t) \<and>
            step_counts s ! t = word_of_int (snd (cell f1 f2 i t))"
    and pd: "prev_step_dist s = fst (cell f1 f2 (Suc i) k)"
    and pc: "prev_step_count s = snd (cell f1 f2 (Suc i) k)"
    by (simp_all add: inner_inv_def)
  have up: "(step_distances s ! Suc k, sint (step_counts s ! Suc k)) = stored (cell f1 f2 i (Suc k))"
    using old[of "Suc k"] k by (simp add: stored_def)
  have dg: "(step_distances s ! k, sint (step_counts s ! k)) = stored (cell f1 f2 i k)"
    using old[of k] k by (simp add: stored_def)
  have pv: "(prev_step_dist s, prev_step_count s) = cell f1 f2 (Suc i) k"
    using pd pc by simp
  let ?s' = "inner_body f1 f2 (Suc i) (InnerProduct_self (feature f1 (int (Suc i))) (dimension f1)) (Suc k) s"
  have sd': "step_distances ?s' = (step_distances s)[k := prev_step_dist s]"
    and sc': "step_counts ?s' = (step_counts s)[k := word_of_int (prev_step_count s)]"
    by (simp_all add: inner_body_def Let_def del: of_nat_Suc split: prod.split)
  have p': "(prev_step_dist ?s', prev_step_count ?s') = cell f1 f2 (Suc i) (Suc k)"
    unfolding inner_body_def Let_def
    by (simp add: up dg pv cost_def del: of_nat_Suc split: prod.split)
  have a: "length (step_distances ?s') = ?n" "length (step_counts ?s') = ?n"
    using len by (simp_all add: sd' sc' del: of_nat_Suc)
  have b: "\<forall>t<Suc k. step_distances ?s' ! t = fst (cell f1 f2 (Suc i) t) \<and>
            step_counts ?s' ! t = word_of_int (snd (cell f1 f2 (Suc i) t))"
  proof (intro allI impI)
    fix t assume "t < Suc k"
    then consider "t < k" | "t = k" by linarith
    then show "step_distances ?s' ! t = fst (cell f1 f2 (Suc i) t) \<and>
            step_counts ?s' ! t = word_of_int (snd (cell f1 f2 (Suc i) t))"
    proof cases
      case 1
      then show ?thesis using new[of t] len k by (simp add: sd' sc' del: of_nat_Suc)
    next
      case 2
      then show ?thesis using len k pd pc by (simp add: sd' sc' del: of_nat_Suc)
    qed
  qed
  have c: "\<forall>t. Suc k \<le> t \<and> t < ?n \<longrightarrow>
            step_distances ?s' ! t = fst (cell f1 f2 i t) \<and>
            step_counts ?s' ! t = word_of_int (snd (cell f1 f2 i t))"
    using old len by (simp add: sd' sc' del: of_nat_Suc)
  from p' have d: "prev_step_dist ?s' = fst (cell f1 f2 (Suc i) (Suc k))"
    "prev_step_count ?s' = snd (cell f1 f2 (Suc i) (Suc k))"
    by (simp_all add: prod_eq_iff del: of_nat_Suc)
  show ?thesis
    unfolding inner_inv_def using a b c d by blast
qed

lemma inner_inv_fold:
  assumes "inner_inv f1 f2 i 0 s0" and "k < nat (size_feature f2)"
  shows "inner_inv f1 f2 i k
    (fold (inner_body f1 f2 (Suc i) (InnerProduct_self (feature f1 (int (Suc i))) (dimension f1)))
       [1..<Suc k] s0)"
  using assms(2)
proof (induction k)
  case 0
  then show ?case using assms(1) by simp
next
  case (Suc k)
  then have "inner_inv f1 f2 i k
    (fold (inner_body f1 f2 (Suc i) (InnerProduct_self (feature f1 (int (Suc i))) (dimension f1)))
       [1..<Suc k] s0)" by simp
  from inner_inv_step[OF this Suc.prems] show ?case
    by (simp only: upt_1_Suc_Suc fold_append comp_apply fold.simps id_apply)
qed

lemma outer_body_row_of:
  assumes n: "0 < nat (size_feature f2)"
  shows "outer_body f1 f2 (Suc i) (row_of f1 f2 i) = row_of f1 f2 (Suc i)"
proof -
  let ?n = "nat (size_feature f2)"
  let ?x = "InnerProduct_self (feature f1 (int (Suc i))) (dimension f1)"
  let ?init = "\<lparr>step_distances = step_distances (row_of f1 f2 i),
     step_counts = step_counts (row_of f1 f2 i),
     prev_step_dist = step_distances (row_of f1 f2 i) ! 0 + cost f1 f2 (Suc i) 0,
     prev_step_count = sint (step_counts (row_of f1 f2 i) ! 0) + 1\<rparr>"
  define s where "s = fold (inner_body f1 f2 (Suc i) ?x) [1..<?n] ?init"
  have last: "nat (size_feature f2 - 1) = ?n - 1" by simp
  have ob: "outer_body f1 f2 (Suc i) (row_of f1 f2 i) =
      \<lparr>step_distances = (step_distances s)[?n - 1 := prev_step_dist s],
       step_counts = (step_counts s)[?n - 1 := word_of_int (prev_step_count s)]\<rparr>"
    unfolding outer_body_def Let_def last cost_def s_def by (simp del: of_nat_Suc)
  have up: "[1..<?n] = [1..<Suc (?n - 1)]" using n by simp
  have "inner_inv f1 f2 i (?n - 1) (fold (inner_body f1 f2 (Suc i) ?x) [1..<Suc (?n - 1)] ?init)"
    by (rule inner_inv_fold[OF inner_inv_start[OF n]]) (use n in simp)
  then have inv: "inner_inv f1 f2 i (?n - 1) s" unfolding s_def up[symmetric] .
  then have len: "length (step_distances s) = ?n" "length (step_counts s) = ?n"
    and new: "\<And>t. t < ?n - 1 \<Longrightarrow> step_distances s ! t = fst (cell f1 f2 (Suc i) t) \<and>
            step_counts s ! t = word_of_int (snd (cell f1 f2 (Suc i) t))"
    and pd: "prev_step_dist s = fst (cell f1 f2 (Suc i) (?n - 1))"
    and pc: "prev_step_count s = snd (cell f1 f2 (Suc i) (?n - 1))"
    by (simp_all add: inner_inv_def)
  have d: "(step_distances s)[?n - 1 := prev_step_dist s] = step_distances (row_of f1 f2 (Suc i))"
  proof (rule nth_equalityI)
    show "length ((step_distances s)[?n - 1 := prev_step_dist s]) = length (step_distances (row_of f1 f2 (Suc i)))"
      using len by (simp add: row_of_def)
  next
    fix t assume "t < length ((step_distances s)[?n - 1 := prev_step_dist s])"
    then have t: "t < ?n" using len by simp
    then consider "t < ?n - 1" | "t = ?n - 1" by linarith
    then show "(step_distances s)[?n - 1 := prev_step_dist s] ! t = step_distances (row_of f1 f2 (Suc i)) ! t"
    proof cases
      case 1
      then show ?thesis using new[of t] len t by (simp add: row_of_def)
    next
      case 2
      then show ?thesis using pd len t by (simp add: row_of_def)
    qed
  qed
  have c: "(step_counts s)[?n - 1 := word_of_int (prev_step_count s)] = step_counts (row_of f1 f2 (Suc i))"
  proof (rule nth_equalityI)
    show "length ((step_counts s)[?n - 1 := word_of_int (prev_step_count s)]) = length (step_counts (row_of f1 f2 (Suc i)))"
      using len by (simp add: row_of_def)
  next
    fix t assume "t < length ((step_counts s)[?n - 1 := word_of_int (prev_step_count s)])"
    then have t: "t < ?n" using len by simp
    then consider "t < ?n - 1" | "t = ?n - 1" by linarith
    then show "(step_counts s)[?n - 1 := word_of_int (prev_step_count s)] ! t = step_counts (row_of f1 f2 (Suc i)) ! t"
    proof cases
      case 1
      then show ?thesis using new[of t] len t by (simp add: row_of_def)
    next
      case 2
      then show ?thesis using pc len t by (simp add: row_of_def)
    qed
  qed
  show ?thesis by (simp only: ob d c) simp
qed

lemma first_row_fold:
  assumes "k < nat (size_feature f2)"
  shows "fold (first_row_body f1 f2 (InnerProduct_self (feature f1 0) (dimension f1))) [1..<Suc k]
      \<lparr>step_distances = (replicate (nat (size_feature f2)) 0)[0 := 2 * cost f1 f2 0 0],
       step_counts = (replicate (nat (size_feature f2)) 0)[0 := 0]\<rparr> =
    \<lparr>step_distances = map (\<lambda>j. fst (cell f1 f2 0 j)) [0..<Suc k] @ replicate (nat (size_feature f2) - Suc k) 0,
     step_counts = map (\<lambda>j. word_of_int (snd (cell f1 f2 0 j))) [0..<Suc k] @ replicate (nat (size_feature f2) - Suc k) 0\<rparr>"
  using assms
proof (induction k)
  case 0
  then obtain m where m: "nat (size_feature f2) = Suc m" by (cases "nat (size_feature f2)") simp_all
  show ?case by (simp add: m)
next
  case (Suc k)
  let ?n = "nat (size_feature f2)"
  let ?ds = "map (\<lambda>j. fst (cell f1 f2 0 j)) [0..<Suc k]"
  let ?cs = "map (\<lambda>j. word_of_int (snd (cell f1 f2 0 j)) :: 16 word) [0..<Suc k]"
  from Suc.prems obtain m where m: "?n - Suc k = Suc m" "?n - Suc (Suc k) = m"
    by (cases "?n - Suc k") simp_all
  have ih: "fold (first_row_body f1 f2 (InnerProduct_self (feature f1 0) (dimension f1))) [1..<Suc k]
      \<lparr>step_distances = (replicate ?n 0)[0 := 2 * cost f1 f2 0 0],
       step_counts = (replicate ?n 0)[0 := 0]\<rparr> =
    \<lparr>step_distances = ?ds @ replicate (Suc m) 0, step_counts = ?cs @ replicate (Suc m) 0\<rparr>"
    using Suc by (simp add: m)
  have l: "length ?ds = Suc k" "length ?cs = Suc k" by simp_all
  have upd: "(?ds @ replicate (Suc m) 0)[Suc k := v] = (?ds @ [v]) @ replicate m 0" for v
    using l(1) by (simp add: list_update_append)
  have upc: "(?cs @ replicate (Suc m) 0)[Suc k := v] = (?cs @ [v]) @ replicate m 0" for v
    using l(2) by (simp add: list_update_append)
  have nk: "(?ds @ replicate (Suc m) 0) ! k = fst (cell f1 f2 0 k)"
    using l(1) by (simp add: nth_append del: upt_Suc)
  have body: "first_row_body f1 f2 (InnerProduct_self (feature f1 0) (dimension f1)) (Suc k)
      \<lparr>step_distances = ?ds @ replicate (Suc m) 0, step_counts = ?cs @ replicate (Suc m) 0\<rparr> =
     \<lparr>step_distances = (?ds @ [fst (cell f1 f2 0 (Suc k))]) @ replicate m 0,
      step_counts = (?cs @ [word_of_int (snd (cell f1 f2 0 (Suc k)))]) @ replicate m 0\<rparr>"
    unfolding first_row_body_def Let_def
    by (simp add: upd upc nk cost_def del: upt_Suc of_nat_Suc replicate.simps)
  show ?case
    by (simp only: upt_1_Suc_Suc fold_append comp_apply fold.simps id_apply ih body m)
       (simp del: of_nat_Suc replicate.simps)
qed

lemma first_row_row_of:
  assumes n: "0 < nat (size_feature f2)"
  shows "first_row f1 f2 = row_of f1 f2 0"
proof -
  let ?n = "nat (size_feature f2)"
  have up: "[1..<?n] = [1..<Suc (?n - 1)]" "[0..<?n] = [0..<Suc (?n - 1)]" using n by simp_all
  have "first_row f1 f2 = fold (first_row_body f1 f2 (InnerProduct_self (feature f1 0) (dimension f1))) [1..<Suc (?n - 1)]
      \<lparr>step_distances = (replicate ?n 0)[0 := 2 * cost f1 f2 0 0],
       step_counts = (replicate ?n 0)[0 := 0]\<rparr>"
    unfolding first_row_def Let_def cost_def up(1)[symmetric] by simp
  also have "\<dots> = \<lparr>step_distances = map (\<lambda>j. fst (cell f1 f2 0 j)) [0..<Suc (?n - 1)] @ replicate (?n - Suc (?n - 1)) 0,
     step_counts = map (\<lambda>j. word_of_int (snd (cell f1 f2 0 j))) [0..<Suc (?n - 1)] @ replicate (?n - Suc (?n - 1)) 0\<rparr>"
    using n by (intro first_row_fold) simp
  also have "\<dots> = row_of f1 f2 0"
    using n unfolding row_of_def up(2)[symmetric] by simp
  finally show ?thesis .
qed

lemma rows_after_cell:
  assumes n: "0 < nat (size_feature f2)"
  shows "rows_after f1 f2 i = row_of f1 f2 i"
proof (induction i)
  case 0
  then show ?case using first_row_row_of[OF n] by (simp add: rows_after_def)
next
  case (Suc i)
  have "rows_after f1 f2 (Suc i) = outer_body f1 f2 (Suc i) (rows_after f1 f2 i)"
    unfolding rows_after_def by (simp only: upt_1_Suc_Suc fold_append comp_apply fold.simps id_apply)
  then show ?case using Suc outer_body_row_of[OF n] by simp
qed

text \<open>The choice of the predecessor, and bounds for the distances and counts of the table.\<close>

lemma select_step_rule:
  "select_step up prev diag =
     (if fst diag < fst up \<and> fst diag < fst prev then diag
      else if fst up < fst prev then up else prev)"
  by (cases up; cases prev; cases diag) (auto simp: select_step_def)

lemma select_step_cases:
  "select_step up prev diag = up \<or> select_step up prev diag = prev \<or> select_step up prev diag = diag"
  by (simp add: select_step_rule)


lemma select_step_min:
  "fst (select_step up prev diag) = min (fst diag) (min (fst up) (fst prev))"
  by (auto simp: select_step_rule min_def)




lemma stored_snd_id:
  assumes "int l \<le> snd c" and "snd c \<le> int k" and "k < 2 ^ 15"
  shows "stored c = c"
proof -
  have "0 \<le> snd c" "snd c < 32768" using assms by simp_all
  then have "(snd c + 32768) mod 65536 = snd c + 32768" by simp
  then have "sint (word_of_int (snd c) :: 16 word) = snd c"
    by (simp add: int_word_sint)
  then show ?thesis by (simp add: stored_def prod_eq_iff)
qed

lemma cell_count_bound:
  "i + j < 2 ^ 15 \<Longrightarrow> int (max i j) \<le> snd (cell f1 f2 i j) \<and> snd (cell f1 f2 i j) \<le> int (i + j)"
proof (induction f1 f2 i j rule: cell.induct)
  case (1 f1 f2)
  then show ?case by simp
next
  case (2 f1 f2 j)
  then show ?case by simp
next
  case (3 f1 f2 i)
  then have ih: "int (max i 0) \<le> snd (cell f1 f2 i 0)" "snd (cell f1 f2 i 0) \<le> int (i + 0)" by simp_all
  have "i + 0 < 2 ^ 15" using "3.prems" by simp
  with ih have "stored (cell f1 f2 i 0) = cell f1 f2 i 0"
    by (rule stored_snd_id)
  then show ?case using ih by simp
next
  case (4 f1 f2 i j)
  let ?p = "select_step (stored (cell f1 f2 i (Suc j))) (cell f1 f2 (Suc i) j) (stored (cell f1 f2 i j))"
  from "4.IH" "4.prems" have u: "int (max i (Suc j)) \<le> snd (cell f1 f2 i (Suc j))" "snd (cell f1 f2 i (Suc j)) \<le> int (i + Suc j)"
    and l: "int (max (Suc i) j) \<le> snd (cell f1 f2 (Suc i) j)" "snd (cell f1 f2 (Suc i) j) \<le> int (Suc i + j)"
    and d: "int (max i j) \<le> snd (cell f1 f2 i j)" "snd (cell f1 f2 i j) \<le> int (i + j)"
    by simp_all
  have b: "i + Suc j < 2 ^ 15" "i + j < 2 ^ 15" using "4.prems" by simp_all
  from u b(1) have su: "stored (cell f1 f2 i (Suc j)) = cell f1 f2 i (Suc j)"
    by (rule stored_snd_id)
  from d b(2) have sd: "stored (cell f1 f2 i j) = cell f1 f2 i j"
    by (rule stored_snd_id)
  from select_step_cases[of "stored (cell f1 f2 i (Suc j))" "cell f1 f2 (Suc i) j" "stored (cell f1 f2 i j)"]
  have "int (max i j) \<le> snd ?p \<and> snd ?p \<le> int (Suc i + j)"
    unfolding su sd using u l d by (elim disjE) simp_all
  then show ?case by (simp add: Let_def)
qed

lemma cell_stored:
  assumes "i + j < 2 ^ 15"
  shows "stored (cell f1 f2 i j) = cell f1 f2 i j"
proof -
  from cell_count_bound[OF assms, of f1 f2]
  have "int (max i j) \<le> snd (cell f1 f2 i j)" "snd (cell f1 f2 i j) \<le> int (i + j)" by simp_all
  then show ?thesis using assms by (rule stored_snd_id)
qed

text \<open>The equations that evaluate \<^verbatim>\<open>calcDTW\<close> on the example features.\<close>

lemma upt_small:
  "[Suc 0..<2] = [Suc 0]" "[Suc 0..<3] = [Suc 0, 2]" "[1..<2] = [Suc 0]" "[1..<3] = [Suc 0, 2]"
  "[Suc 0..<Suc 0] = []" "[1..<Suc 0] = []" "[1..<1] = []"
  by (simp_all add: upt_rec)

lemma replicate_small:
  "replicate 2 x = [x, x]" "replicate 3 x = [x, x, x]"
  by (simp_all add: numeral_2_eq_2 numeral_3_eq_3)

lemma list_update_small:
  "(x # xs)[2 := v] = x # xs[Suc 0 := v]" "[a, b, c] ! 2 = c"
  by (simp_all add: numeral_2_eq_2)

lemmas dtw_eval = calcDTW_def dynamic_program_def rows_after_def outer_body_def inner_body_def
  select_step_def first_row_def first_row_body_def CosineDistance_def CosineDistancef_def
  truncate_real_def InnerProduct_def InnerProduct_self_def feature_def dimension_def
  size_feature_def kDistanceCoef_def Let_def UINT32_MAX_def upt_small replicate_small
  list_update_small enough_memory_def





lemma dynamic_program_ones2_zero_zero_one: "dynamic_program ones2 zero_zero_one = \<lparr>step_distances = [3000, 3000, 3000], step_counts = [1, 1, 2]\<rparr>"
  by (simp add: dtw_eval ones2_def zero_zero_one_def)



lemma fst_stored: "fst (stored c) = fst c"
  by (simp add: stored_def)




lemma dynamic_program_rows_after:
  "0 < size_feature f1 \<Longrightarrow>
   dynamic_program f1 f2 = rows_after f1 f2 (nat (size_feature f1) - 1)"
  by (simp add: dynamic_program_def rows_after_def)



lemma row_of_nth:
  assumes "j < nat (size_feature f2)"
  shows "step_distances (row_of f1 f2 i) ! j = fst (cell f1 f2 i j)"
    and "step_counts (row_of f1 f2 i) ! j = word_of_int (snd (cell f1 f2 i j))"
  using assms by (simp_all add: row_of_def del: upt_Suc)

lemma row_of_cell:
  assumes "j < nat (size_feature f2)" and "i + j < 2 ^ 15"
  shows "(step_distances (row_of f1 f2 i) ! j, sint (step_counts (row_of f1 f2 i) ! j)) = cell f1 f2 i j"
proof -
  have "(step_distances (row_of f1 f2 i) ! j, sint (step_counts (row_of f1 f2 i) ! j)) =
      stored (cell f1 f2 i j)"
    using row_of_nth[OF assms(1)] by (simp add: stored_def)
  then show ?thesis using cell_stored[OF assms(2)] by simp
qed

text \<open>
  Claim C1, amended. Let the two features have at most \<open>2 ^ 15\<close> frames together, so
  that no step count leaves the range of \<^verbatim>\<open>int16_t\<close>. \<open>rows_after f1 f2 i\<close> are the rolling
  rows after the outer iteration \<open>i\<close>, the last of them the rows \<^verbatim>\<open>calcDTW\<close> ends with; row
  \<open>i\<close> holds the cells \<open>(i, j)\<close>. At every inner cell \<open>(i, j)\<close>,
  \<open>1 \<le> i < m\<close> and \<open>1 \<le> j < n\<close>, the predecessor with the smallest accumulated distance
  is selected; on equality of distances the left predecessor \<open>(i, j - 1)\<close> is preferred,
  then the upper one \<open>(i - 1, j)\<close>, then the diagonal one \<open>(i - 1, j - 1)\<close>: the diagonal
  is taken only when its distance is strictly below both others, the upper one only when
  its distance is strictly below the left one. The cell holds the distance of the
  selected predecessor plus the cost of the cell, and its step count plus one.
\<close>

theorem calcDTW_predecessor_choice:
  assumes "0 < i" and "0 < j" and "int i < size_feature f1" and "int j < size_feature f2"
    and "size_feature f1 + size_feature f2 \<le> 2 ^ 15"
    and "buffer_ok f1" and "buffer_ok f2"
  shows "let r0 = rows_after f1 f2 (i - 1);
             r1 = rows_after f1 f2 i;
             up = (step_distances r0 ! j, sint (step_counts r0 ! j));
             left = (step_distances r1 ! (j - 1), sint (step_counts r1 ! (j - 1)));
             diag = (step_distances r0 ! (j - 1), sint (step_counts r0 ! (j - 1)));
             chosen = (if fst diag < fst up \<and> fst diag < fst left then diag
                       else if fst up < fst left then up else left)
         in fst chosen = min (fst diag) (min (fst up) (fst left)) \<and>
            step_distances r1 ! j = fst chosen + cost f1 f2 i j \<and>
            sint (step_counts r1 ! j) = snd chosen + 1 \<and>
            dynamic_program f1 f2 = rows_after f1 f2 (nat (size_feature f1) - 1)"
proof -
  from assms(1,2) obtain i' j' where ij: "i = Suc i'" "j = Suc j'"
    by (cases i; cases j) simp_all
  have n: "0 < nat (size_feature f2)" using assms(4) by simp
  have jn: "Suc j' < nat (size_feature f2)" "j' < nat (size_feature f2)"
    using assms(4) ij by simp_all
  have b: "Suc i' + Suc j' < 2 ^ 15" "i' + Suc j' < 2 ^ 15" "Suc i' + j' < 2 ^ 15" "i' + j' < 2 ^ 15"
    using assms(3,4,5) ij by simp_all
  let ?up = "cell f1 f2 i' (Suc j')" and ?left = "cell f1 f2 (Suc i') j'" and ?diag = "cell f1 f2 i' j'"
  have up: "(step_distances (rows_after f1 f2 (i - 1)) ! j,
             sint (step_counts (rows_after f1 f2 (i - 1)) ! j)) = ?up"
    unfolding rows_after_cell[OF n] ij using row_of_cell[OF jn(1) b(2)] by simp
  have left: "(step_distances (rows_after f1 f2 i) ! (j - 1),
             sint (step_counts (rows_after f1 f2 i) ! (j - 1))) = ?left"
    unfolding rows_after_cell[OF n] ij using row_of_cell[OF jn(2) b(3)] by simp
  have diag: "(step_distances (rows_after f1 f2 (i - 1)) ! (j - 1),
             sint (step_counts (rows_after f1 f2 (i - 1)) ! (j - 1))) = ?diag"
    unfolding rows_after_cell[OF n] ij using row_of_cell[OF jn(2) b(4)] by simp
  have here: "(step_distances (rows_after f1 f2 i) ! j,
             sint (step_counts (rows_after f1 f2 i) ! j)) = cell f1 f2 (Suc i') (Suc j')"
    unfolding rows_after_cell[OF n] ij using row_of_cell[OF jn(1) b(1)] by simp
  let ?chosen = "if fst ?diag < fst ?up \<and> fst ?diag < fst ?left then ?diag
                 else if fst ?up < fst ?left then ?up else ?left"
  have sel: "select_step (stored ?up) ?left (stored ?diag) = ?chosen"
    unfolding cell_stored[OF b(2)] cell_stored[OF b(4)] by (rule select_step_rule)
  have mn: "fst ?chosen = min (fst ?diag) (min (fst ?up) (fst ?left))"
    unfolding sel[symmetric] select_step_min by (simp add: fst_stored)
  have c: "cell f1 f2 (Suc i') (Suc j') = (fst ?chosen + cost f1 f2 i j, snd ?chosen + 1)"
    unfolding ij by (simp only: cell.simps Let_def sel)
  from here c have d: "step_distances (rows_after f1 f2 i) ! j = fst ?chosen + cost f1 f2 i j"
    and e: "sint (step_counts (rows_after f1 f2 i) ! j) = snd ?chosen + 1"
    by simp_all
  have "0 < size_feature f1" using assms(3) by simp
  then have f: "dynamic_program f1 f2 = rows_after f1 f2 (nat (size_feature f1) - 1)"
    by (rule dynamic_program_rows_after)
  show ?thesis
    unfolding Let_def up left diag using mn d e f by simp
qed

lemma rows_ones2_0: "rows_after ones2 ones2 0 = \<lparr>step_distances = [0, 0], step_counts = [0, 1]\<rparr>"
  by (simp add: dtw_eval ones2_def)

lemma rows_ones2_1: "rows_after ones2 ones2 (Suc 0) = \<lparr>step_distances = [0, 0], step_counts = [1, 2]\<rparr>"
  by (simp add: dtw_eval ones2_def)

lemma size_ones2: "size_feature ones2 = 2"
  by (simp add: size_feature_def ones2_def)

lemma dynamic_program_ones2: "dynamic_program ones2 ones2 = rows_after ones2 ones2 (Suc 0)"
  using dynamic_program_rows_after[of ones2 ones2] by (simp add: size_ones2)

lemma buffer_ok_examples:
  "buffer_ok ones1" "buffer_ok ones2" "buffer_ok zeros2" "buffer_ok zero_zero_one"
  "buffer_ok ones4" "buffer_ok ones6"
  by (simp_all add: buffer_ok_def ones1_def ones2_def zeros2_def zero_zero_one_def ones4_def
      ones6_def)

theorem calcDTW_predecessor_choice_witness:
  "int (Suc 0) < size_feature ones2 \<and> size_feature ones2 + size_feature ones2 \<le> 2 ^ 15 \<and>
   buffer_ok ones2 \<and>
   step_distances (rows_after ones2 ones2 (Suc 0)) ! Suc 0 = 0 + cost ones2 ones2 (Suc 0) (Suc 0) \<and>
   sint (step_counts (rows_after ones2 ones2 (Suc 0)) ! Suc 0) = 1 + 1 \<and>
   dynamic_program ones2 ones2 = rows_after ones2 ones2 (Suc 0)"
  using calcDTW_predecessor_choice[of "Suc 0" "Suc 0" ones2 ones2] buffer_ok_examples
  by (simp add: rows_ones2_0 rows_ones2_1 size_ones2 dynamic_program_ones2 Let_def)

text \<open>
  Claim C1, as stated, fails. For the feature of two frames \<open>[1]\<close> compared with itself
  the three predecessors of the cell \<open>(1, 1)\<close> have the distance 0; the diagonal one
  \<open>(0, 0)\<close> has the step count 0, the upper one \<open>(0, 1)\<close> and the left one \<open>(1, 0)\<close> have
  the step count 1. With the diagonal predecessor preferred the cell would carry the step
  count 1; the code selects the left predecessor, and the cell carries the step count 2.
  These rows are the ones \<^verbatim>\<open>calcDTW\<close> ends with.
\<close>

theorem calcDTW_tie_counterexample:
  "step_distances (rows_after ones2 ones2 0) ! 0 = 0 \<and>
   sint (step_counts (rows_after ones2 ones2 0) ! 0) = 0 \<and>
   step_distances (rows_after ones2 ones2 0) ! 1 = 0 \<and>
   sint (step_counts (rows_after ones2 ones2 0) ! 1) = 1 \<and>
   step_distances (rows_after ones2 ones2 1) ! 0 = 0 \<and>
   sint (step_counts (rows_after ones2 ones2 1) ! 0) = 1 \<and>
   select_step (0, 1) (0, 1) (0, 0) = (0, 1) \<and>
   sint (step_counts (rows_after ones2 ones2 1) ! 1) = 2 \<and>
   sint (step_counts (rows_after ones2 ones2 1) ! 1) \<noteq>
     sint (step_counts (rows_after ones2 ones2 0) ! 0) + 1 \<and>
   dynamic_program ones2 ones2 = rows_after ones2 ones2 1"
  using rows_ones2_0 rows_ones2_1 dynamic_program_ones2
  by (simp add: select_step_def)









end
